theory Spec2Isabelle
  imports Main "HOL-Library.Multiset"
begin

section \<open>JavaScript values\<close>

text \<open>
  The implementation tree handed to \<open>createExpressEndpoints\<close>, the parts of a request and
  the values a handler returns or throws are JavaScript values.  The engine tells them
  apart by shape (\<open>typeof\<close>, property reads, \<open>for ... in\<close>), never by a tag, so the
  model keeps one universe of values and the same shape tests.  Numbers are the integers;
  a function is named, and what calling it does is given separately (section
  \<open>Calling functions\<close>).  An object is the list of its own enumerable string-keyed
  properties in enumeration order.
\<close>

datatype jsval =
    JUndefined
  | JNull
  | JBool bool
  | JNum int
  | JStr string
  | JArray "jsval list"
  | JObject "(string \<times> jsval) list"
  | JFunction string

fun typeof :: "jsval \<Rightarrow> string" where
  "typeof JUndefined = ''undefined''"
| "typeof JNull = ''object''"
| "typeof (JBool b) = ''boolean''"
| "typeof (JNum n) = ''number''"
| "typeof (JStr s) = ''string''"
| "typeof (JArray xs) = ''object''"
| "typeof (JObject kvs) = ''object''"
| "typeof (JFunction f) = ''function''"

text \<open>The decimal name of an array index, the key \<open>for ... in\<close> yields for it.\<close>

fun index_key :: "nat \<Rightarrow> string" where
  "index_key n =
     (if n < 10 then [char_of (48 + n)]
      else index_key (n div 10) @ [char_of (48 + n mod 10)])"

text \<open>
  \<open>entries v\<close>: the keys \<open>for (const key in v)\<close> enumerates, each with \<open>v[key]\<close>.
  \<open>null\<close> and the primitive values enumerate nothing.
\<close>

fun entries :: "jsval \<Rightarrow> (string \<times> jsval) list" where
  "entries (JObject kvs) = kvs"
| "entries (JArray xs) = zip (map index_key [0..<length xs]) xs"
| "entries v = []"

text \<open>
  \<open>js_get v key\<close> is the optional property read \<open>v?.key\<close>, for the two names the
  engine reads (\<open>handler\<close>, \<open>middleware\<close>): an own property, else \<open>undefined\<close>.
\<close>

definition js_get :: "jsval \<Rightarrow> string \<Rightarrow> jsval" where
  "js_get v key = (case map_of (entries v) key of Some x \<Rightarrow> x | None \<Rightarrow> JUndefined)"

fun truthy :: "jsval \<Rightarrow> bool" where
  "truthy JUndefined = False"
| "truthy JNull = False"
| "truthy (JBool b) = b"
| "truthy (JNum n) = (n \<noteq> 0)"
| "truthy (JStr s) = (s \<noteq> [])"
| "truthy v = True"

text \<open>What can be thrown: an \<open>Error\<close> with its message, a \<open>TypeError\<close>, or any value.\<close>

datatype exn = Error string | TypeError | Thrown jsval

text \<open>
  \<open>spread v\<close> is the argument spread \<open>...v\<close>: the elements of an array, the characters
  of a string, and a \<open>TypeError\<close> for a value that is not iterable.
\<close>

fun spread :: "jsval \<Rightarrow> exn + jsval list" where
  "spread (JArray xs) = Inr xs"
| "spread (JStr s) = Inr (map (\<lambda>c. JStr [c]) s)"
| "spread v = Inl TypeError"

section \<open>Routes, routers and options\<close>

text \<open>
  Modelled from the spec: the shape descriptors of \<open>@ts-rest/core\<close> (Zod schemas in the
  source, which is not part of these files).  A shape is a primitive type or an object
  with declared keys.
\<close>

datatype shape = AnyString | AnyBoolean | AnyNumber | ObjectShape "(string \<times> shape) list"

text \<open>
  An \<open>AppRoute\<close>.  A field that the route does not declare is \<open>None\<close>; \<open>route_body\<close>
  is \<open>None\<close> both for a route without a \<open>body\<close> key and for a null body.
  \<open>responses\<close> maps a status code to the shape declared for it.
\<close>

record route =
  route_method :: string
  route_path :: string
  pathParams :: "shape option"
  route_headers :: "shape option"
  route_query :: "shape option"
  route_body :: "shape option"
  responses :: "(int \<times> shape) list"

text \<open>
  The schema tree: an \<open>AppRoute\<close>, an \<open>AppRouter\<close> (keys to sub-trees), or the
  \<open>undefined\<close> that reading a key the router does not have gives.
\<close>

datatype schema = AppRoute route | AppRouter "(string \<times> schema) list" | NoSchema

text \<open>
  Modelled from the spec: \<open>isAppRoute\<close> of \<open>@ts-rest/core\<close> tells a leaf Route from a
  Router.
\<close>

fun isAppRoute :: "schema \<Rightarrow> bool" where
  "isAppRoute (AppRoute r) = True"
| "isAppRoute s = False"

text \<open>\<open>schema[key]\<close>; reading a property of \<open>undefined\<close> is a \<open>TypeError\<close>.\<close>

fun subschema :: "schema \<Rightarrow> string \<Rightarrow> exn + schema" where
  "subschema (AppRouter kvs) key =
     Inr (case map_of kvs key of Some s \<Rightarrow> s | None \<Rightarrow> NoSchema)"
| "subschema (AppRoute r) key = Inr NoSchema"
| "subschema NoSchema key = Inl TypeError"

record options =
  logInitialization :: bool
  jsonQuery :: bool
  responseValidation :: bool
  globalMiddleware :: jsval

definition default_options :: options where
  "default_options =
     \<lparr>logInitialization = True, jsonQuery = False, responseValidation = False,
      globalMiddleware = JUndefined\<rparr>"

text \<open>
  Modelled from the spec: \<open>isAppRouteImplementation\<close> of \<open>./types\<close>: the implementation
  is a callable handler, not an options object.
\<close>

definition isAppRouteImplementation :: "jsval \<Rightarrow> bool" where
  "isAppRouteImplementation obj = (typeof obj = ''function'')"

section \<open>The host router\<close>

text \<open>
  The members of a handler chain.  Two of them are closures the engine builds:
  \<open>contextMiddleware({contextFunction, route})\<close> and \<open>mainReqHandler\<close>, which closes
  over the handler, the route and the options.  The others are the values supplied as
  global or per-route middleware.
\<close>

datatype handler_fn =
    ContextMiddleware jsval route
  | Supplied jsval
  | MainReqHandler jsval route options

text \<open>
  The Express router is outside the engine.  Its registration calls \<open>app.get\<close>,
  \<open>app.post\<close>, ... are modelled by what they are given: the call's name, the path and
  the handlers, appended to the list of registrations.  The console is the other thing
  registration writes to.
\<close>

record registration =
  verb :: string
  reg_path :: string
  handlers :: "handler_fn list"

record host =
  registered :: "registration list"
  console :: "string list"

definition register :: "string \<Rightarrow> string \<Rightarrow> handler_fn list \<Rightarrow> host \<Rightarrow> host" where
  "register v p hs app =
     app\<lparr>registered := registered app @ [\<lparr>verb = v, reg_path = p, handlers = hs\<rparr>]\<rparr>"

section \<open>Registration\<close>

text \<open>
  A statement that can throw returns the exception, if any, together with the host as
  it is at that moment: what was registered before a throw stays registered.
\<close>

text \<open>
  \<open>initializeExpressRoute\<close>, the registration half (the request half is the closure
  \<open>MainReqHandler\<close>, run by \<open>mainReqHandler\<close> below).  The \<open>switch\<close> on the method has
  five cases and no default.
\<close>

definition initializeExpressRoute ::
    "jsval \<Rightarrow> route \<Rightarrow> host \<Rightarrow> options \<Rightarrow> jsval \<Rightarrow> exn option \<times> host" where
  "initializeExpressRoute implementationOrOptions schema app opts contextFunction =
     (let app1 =
            (if logInitialization opts then
               app\<lparr>console := console app @
                 [''[ts-rest] Initialized '' @ route_method schema @ '' '' @ route_path schema]\<rparr>
             else app);
          handler =
            (if isAppRouteImplementation implementationOrOptions then implementationOrOptions
             else js_get implementationOrOptions ''handler'');
          mainReqHandler = MainReqHandler handler schema opts;
          handlers0 = [ContextMiddleware contextFunction schema]
      in
        case (if truthy (globalMiddleware opts) then spread (globalMiddleware opts)
              else Inr []) of
          Inl e \<Rightarrow> (Some e, app1)
        | Inr global \<Rightarrow>
            (case (if \<not> isAppRouteImplementation implementationOrOptions \<and>
                      truthy (js_get implementationOrOptions ''middleware'')
                   then spread (js_get implementationOrOptions ''middleware'')
                   else Inr []) of
               Inl e \<Rightarrow> (Some e, app1)
             | Inr perRoute \<Rightarrow>
                 (let hs = handlers0 @ map Supplied global @ map Supplied perRoute
                             @ [mainReqHandler]
                  in
                    (None,
                     if route_method schema = ''GET'' then
                       register ''get'' (route_path schema) hs app1
                     else if route_method schema = ''DELETE'' then
                       register ''delete'' (route_path schema) hs app1
                     else if route_method schema = ''POST'' then
                       register ''post'' (route_path schema) hs app1
                     else if route_method schema = ''PUT'' then
                       register ''put'' (route_path schema) hs app1
                     else if route_method schema = ''PATCH'' then
                       register ''patch'' (route_path schema) hs app1
                     else app1))))"

lemma entries_size: "size_list (\<lambda>p. size (snd p)) (entries v) \<le> size v"
proof (cases v)
  case (JArray xs)
  have "size_list (\<lambda>p. size (snd p)) (zip ks xs) \<le> size_list size xs" for ks :: "string list"
  proof (induction xs arbitrary: ks)
    case Nil
    then show ?case by simp
  next
    case (Cons x xs)
    then show ?case by (cases ks) (auto simp: le_SucI)
  qed
  then show ?thesis using JArray by (simp add: le_SucI)
next
  case (JObject kvs)
  have "size_list (\<lambda>p. size (snd p)) kvs \<le> size_list (size_prod (\<lambda>_. 0) size) kvs"
    by (induction kvs) auto
  then show ?thesis using JObject by (simp add: le_SucI)
qed auto

text \<open>
  \<open>recursivelyApplyExpressRouter\<close>, with its \<open>for (const key in router)\<close> loop as
  \<open>forIn\<close> over the entries still to visit.  \<open>processRoute\<close> is only reached with a
  schema that \<open>isAppRoute\<close> accepts.
\<close>

function recursivelyApplyExpressRouter ::
    "(jsval \<Rightarrow> route \<Rightarrow> 'a \<Rightarrow> exn option \<times> 'a) \<Rightarrow> schema \<Rightarrow> jsval \<Rightarrow> 'a \<Rightarrow> exn option \<times> 'a"
  and forIn ::
    "(jsval \<Rightarrow> route \<Rightarrow> 'a \<Rightarrow> exn option \<times> 'a) \<Rightarrow> schema \<Rightarrow> (string \<times> jsval) list \<Rightarrow> 'a
       \<Rightarrow> exn option \<times> 'a"
where
  "recursivelyApplyExpressRouter processRoute schema router app =
     (if typeof router = ''object'' \<and> typeof (js_get router ''handler'') \<noteq> ''function'' then
        forIn processRoute schema (entries router) app
      else if typeof router = ''function'' \<or> typeof (js_get router ''handler'') = ''function''
      then
        (if \<not> isAppRoute schema then
           (Some (Error ''[ts-rest] Expected AppRoute but received AppRouter''), app)
         else
           (case schema of
              AppRoute r \<Rightarrow> processRoute router r app
            | _ \<Rightarrow> (None, app)))
      else (None, app))"
| "forIn processRoute schema [] app = (None, app)"
| "forIn processRoute schema ((key, child) # rest) app =
     (if isAppRoute schema then
        (Some (Error ''[ts-rest] Expected AppRouter but received AppRoute''), app)
      else
        (case subschema schema key of
           Inl e \<Rightarrow> (Some e, app)
         | Inr sub \<Rightarrow>
             (case recursivelyApplyExpressRouter processRoute sub child app of
                (Some e, app') \<Rightarrow> (Some e, app')
              | (None, app') \<Rightarrow> forIn processRoute schema rest app')))"
  by pat_completeness auto

termination
  apply (relation "measure (\<lambda>x. case x of
      Inl (p, s, router, a) \<Rightarrow> 2 * size router + 1
    | Inr (p, s, kvs, a) \<Rightarrow> 2 * size_list (\<lambda>p. size (snd p)) kvs)")
  using entries_size apply (auto simp: le_imp_less_Suc)
  done

text \<open>
  The router object given to \<open>createExpressEndpoints\<close>: its string-keyed tree, and the
  property under the symbol \<open>RouterOptions\<close> (which \<open>for ... in\<close> never enumerates),
  holding the context function when the router was built by \<open>initServer().context\<close>.
\<close>

record router_obj =
  tree :: jsval
  routerOptions :: "jsval option"

definition initServer_context_router :: "jsval \<Rightarrow> jsval \<Rightarrow> router_obj" where
  "initServer_context_router contextFunction args =
     \<lparr>tree = args, routerOptions = Some contextFunction\<rparr>"

definition initServer_router :: "jsval \<Rightarrow> router_obj" where
  "initServer_router args = \<lparr>tree = args, routerOptions = None\<rparr>"

text \<open>\<open>router[RouterOptions]?.contextFunction\<close>\<close>

definition contextFunction_of :: "router_obj \<Rightarrow> jsval" where
  "contextFunction_of router =
     (case routerOptions router of None \<Rightarrow> JUndefined | Some f \<Rightarrow> f)"

definition createExpressEndpoints ::
    "schema \<Rightarrow> router_obj \<Rightarrow> host \<Rightarrow> options \<Rightarrow> exn option \<times> host" where
  "createExpressEndpoints schema router app opts =
     recursivelyApplyExpressRouter
       (\<lambda>implementation innerSchema app'.
          initializeExpressRoute implementation innerSchema app' opts
            (contextFunction_of router))
       schema (tree router) app"

section \<open>Calling functions\<close>

text \<open>
  What a call of a JavaScript function does, as far as the engine sees it: it returns a
  plain value, throws, or returns a promise that is fulfilled, is rejected, or never
  settles.
\<close>

datatype 'a completion = Returns 'a | Throws exn | Resolves 'a | Rejects exn | Pending

text \<open>
  \<open>await\<close> inside an \<open>async\<close> function: the value, or the exception raised at the
  \<open>await\<close>; \<open>None\<close> when the function is never resumed.
\<close>

fun await :: "'a completion \<Rightarrow> (exn + 'a) option" where
  "await (Returns v) = Some (Inr v)"
| "await (Resolves v) = Some (Inr v)"
| "await (Throws e) = Some (Inl e)"
| "await (Rejects e) = Some (Inl e)"
| "await Pending = None"

text \<open>
  The request, as far as the engine reads or writes it.  \<open>tsRest\<close> is \<open>None\<close> until
  the property is assigned.
\<close>

record request =
  req_params :: jsval
  req_headers :: jsval
  req_query :: jsval
  req_body :: jsval
  req_files :: jsval
  req_file :: jsval
  tsRest :: "(route \<times> jsval) option"

text \<open>The object the route handler is called with (\<open>res\<close> left out), and what it returns.\<close>

record handler_args =
  params :: jsval
  body :: jsval
  query :: jsval
  headers :: jsval
  files :: jsval
  "file" :: jsval
  req :: request

record handler_result =
  status :: int
  result_body :: jsval

text \<open>
  \<open>res.status(n).send(x)\<close> and \<open>res.status(n).json(x)\<close>.
\<close>

datatype payload = Send jsval | Json jsval

record response =
  status_code :: int
  sent :: payload

text \<open>What a supplied middleware does with a request.\<close>

datatype mw_step = CallsNext request | CallsNextWith exn | Responds response | Stalls

text \<open>
  The behaviour of the named functions: one entry for each way the engine or the host
  calls a function value.
\<close>

record calls =
  contextFunction_call :: "string \<Rightarrow> request \<Rightarrow> route \<Rightarrow> jsval completion"
  handler_call :: "string \<Rightarrow> handler_args \<Rightarrow> handler_result completion"
  middleware_call :: "string \<Rightarrow> request \<Rightarrow> mw_step"

text \<open>Calling a value that is not a function throws a \<open>TypeError\<close>.\<close>

fun invoke_contextFunction :: "calls \<Rightarrow> jsval \<Rightarrow> request \<Rightarrow> route \<Rightarrow> jsval completion" where
  "invoke_contextFunction fs (JFunction f) rq r = contextFunction_call fs f rq r"
| "invoke_contextFunction fs v rq r = Throws TypeError"

fun invoke_handler :: "calls \<Rightarrow> jsval \<Rightarrow> handler_args \<Rightarrow> handler_result completion" where
  "invoke_handler fs (JFunction f) args = handler_call fs f args"
| "invoke_handler fs v args = Throws TypeError"

section \<open>The functions of the core library\<close>

text \<open>
  \<open>checkZodSchema\<close>, \<open>parseJsonQueryObject\<close> and \<open>validateResponse\<close> are imported from
  \<open>@ts-rest/core\<close>, which is not among the source files; the engine is modelled over
  any three such functions.  \<open>checkZodSchema data shape passThroughExtraKeys\<close> gives
  \<open>Inr\<close> the parsed data (\<open>success: true\<close>) or \<open>Inl\<close> the error; the flag is \<open>False\<close>
  for a call that passes no options.  \<open>validateResponse\<close> returns the response to send
  or throws.
\<close>

record core =
  checkZodSchema :: "jsval \<Rightarrow> shape option \<Rightarrow> bool \<Rightarrow> jsval + jsval"
  parseJsonQueryObject :: "jsval \<Rightarrow> jsval"
  validateResponse :: "shape option \<Rightarrow> int \<times> jsval \<Rightarrow> exn + int \<times> jsval"

section \<open>Handling a request\<close>

text \<open>
  The calls a request's handling makes, in order, with their arguments.
\<close>

datatype event =
    CallContextFunction jsval request route
  | CallCheckZodSchema jsval "shape option" bool
  | CallParseJsonQueryObject jsval
  | CallHandler jsval handler_args
  | CallValidateResponse "shape option" int jsval
  | CallMiddleware jsval

text \<open>
  How a handler of the chain ends: it calls \<open>next()\<close> or \<open>next(e)\<close>, it sends a
  response, its \<open>async\<close> body rejects with no one to catch it, or it waits for ever.
\<close>

datatype outcome =
    Next
  | NextError exn
  | Responded response
  | UnhandledRejection exn
  | Stalled

record validation_results =
  paramsResult :: jsval
  headersResult :: jsval
  queryResult :: jsval
  bodyResult :: jsval

text \<open>
  \<open>validateRequest\<close>: \<open>Inl\<close> the response it has sent, or \<open>Inr\<close> the four results
  (each result's \<open>data\<close>).
\<close>

definition validateRequest ::
    "core \<Rightarrow> request \<Rightarrow> route \<Rightarrow> options \<Rightarrow> event list \<times> (response + validation_results)" where
  "validateRequest c rq schema opts =
     (let ev1 = [CallCheckZodSchema (req_params rq) (pathParams schema) True] in
      case checkZodSchema c (req_params rq) (pathParams schema) True of
        Inl err \<Rightarrow> (ev1, Inl \<lparr>status_code = 400, sent = Send err\<rparr>)
      | Inr paramsData \<Rightarrow>
     (let ev2 = ev1 @ [CallCheckZodSchema (req_headers rq) (route_headers schema) True] in
      case checkZodSchema c (req_headers rq) (route_headers schema) True of
        Inl err \<Rightarrow> (ev2, Inl \<lparr>status_code = 400, sent = Send err\<rparr>)
      | Inr headersData \<Rightarrow>
     (let q = (if jsonQuery opts then parseJsonQueryObject c (req_query rq) else req_query rq);
          ev3 = ev2 @ (if jsonQuery opts then [CallParseJsonQueryObject (req_query rq)] else [])
                    @ [CallCheckZodSchema q (route_query schema) False] in
      case checkZodSchema c q (route_query schema) False of
        Inl err \<Rightarrow> (ev3, Inl \<lparr>status_code = 400, sent = Send err\<rparr>)
      | Inr queryData \<Rightarrow>
     (let ev4 = ev3 @ [CallCheckZodSchema (req_body rq) (route_body schema) False] in
      case checkZodSchema c (req_body rq) (route_body schema) False of
        Inl err \<Rightarrow> (ev4, Inl \<lparr>status_code = 400, sent = Send err\<rparr>)
      | Inr bodyData \<Rightarrow>
          (ev4, Inr \<lparr>paramsResult = paramsData, headersResult = headersData,
                     queryResult = queryData, bodyResult = bodyData\<rparr>)))))"

text \<open>
  \<open>Number(result.status)\<close>: the handler's result declares \<open>status\<close> as a number, and
  on a number \<open>Number\<close> is the identity.
\<close>

definition Number :: "int \<Rightarrow> int" where
  "Number n = n"

text \<open>
  \<open>mainReqHandler\<close>.  Everything after the validation is inside the \<open>try\<close>, whose
  \<open>catch\<close> calls \<open>next(e)\<close>.
\<close>

definition mainReqHandler ::
    "core \<Rightarrow> calls \<Rightarrow> jsval \<Rightarrow> route \<Rightarrow> options \<Rightarrow> request \<Rightarrow> event list \<times> outcome" where
  "mainReqHandler c fs handler schema opts rq =
     (case validateRequest c rq schema opts of
        (evs, Inl validationResponse) \<Rightarrow> (evs, Responded validationResponse)
      | (evs, Inr validationResults) \<Rightarrow>
          (let args = \<lparr>params = paramsResult validationResults,
                       body = bodyResult validationResults,
                       query = queryResult validationResults,
                       headers = headersResult validationResults,
                       files = req_files rq, file = req_file rq, req = rq\<rparr>;
               evs1 = evs @ [CallHandler handler args]
           in
             case await (invoke_handler fs handler args) of
               None \<Rightarrow> (evs1, Stalled)
             | Some (Inl e) \<Rightarrow> (evs1, NextError e)
             | Some (Inr result) \<Rightarrow>
                 (let statusCode = Number (status result) in
                  if responseValidation opts then
                    (let responseType = map_of (responses schema) statusCode;
                         evs2 = evs1 @ [CallValidateResponse responseType statusCode
                                          (result_body result)]
                     in
                       case validateResponse c responseType (statusCode, result_body result) of
                         Inl e \<Rightarrow> (evs2, NextError e)
                       | Inr response \<Rightarrow>
                           (evs2, Responded \<lparr>status_code = statusCode,
                                              sent = Json (snd response)\<rparr>))
                  else
                    (evs1, Responded \<lparr>status_code = statusCode,
                                       sent = Json (result_body result)\<rparr>))))"

text \<open>
  \<open>contextMiddleware({contextFunction, route})\<close> applied to a request: the outcome and
  the request as it leaves the middleware.  The body is an \<open>async\<close> function that is
  called and not awaited, so an exception in it is an unhandled rejection.
\<close>

definition contextMiddleware ::
    "calls \<Rightarrow> jsval \<Rightarrow> route \<Rightarrow> request \<Rightarrow> event list \<times> outcome \<times> request" where
  "contextMiddleware fs contextFunction r rq =
     (if truthy contextFunction then
        (case await (invoke_contextFunction fs contextFunction rq r) of
           None \<Rightarrow> ([CallContextFunction contextFunction rq r], Stalled, rq)
         | Some (Inl e) \<Rightarrow> ([CallContextFunction contextFunction rq r], UnhandledRejection e, rq)
         | Some (Inr ctx) \<Rightarrow>
             ([CallContextFunction contextFunction rq r], Next, rq\<lparr>tsRest := Some (r, ctx)\<rparr>))
      else ([], Next, rq\<lparr>tsRest := Some (r, JUndefined)\<rparr>))"

text \<open>
  The host's side of a request: it calls the registered handlers in order, going to the
  following one when a handler calls \<open>next()\<close>, and stops at any other outcome.  A
  supplied value that is not a function cannot be called.  Running past the last
  handler leaves the request to the rest of the host (\<open>Next\<close>).
\<close>

fun run_handler :: "core \<Rightarrow> calls \<Rightarrow> handler_fn \<Rightarrow> request \<Rightarrow> event list \<times> outcome \<times> request" where
  "run_handler c fs (ContextMiddleware contextFunction r) rq =
     contextMiddleware fs contextFunction r rq"
| "run_handler c fs (MainReqHandler handler schema opts) rq =
     (case mainReqHandler c fs handler schema opts rq of (evs, out) \<Rightarrow> (evs, out, rq))"
| "run_handler c fs (Supplied (JFunction f)) rq =
     (case middleware_call fs f rq of
        CallsNext rq' \<Rightarrow> ([CallMiddleware (JFunction f)], Next, rq')
      | CallsNextWith e \<Rightarrow> ([CallMiddleware (JFunction f)], NextError e, rq)
      | Responds resp \<Rightarrow> ([CallMiddleware (JFunction f)], Responded resp, rq)
      | Stalls \<Rightarrow> ([CallMiddleware (JFunction f)], Stalled, rq))"
| "run_handler c fs (Supplied v) rq = ([CallMiddleware v], NextError TypeError, rq)"

fun run_chain :: "core \<Rightarrow> calls \<Rightarrow> handler_fn list \<Rightarrow> request \<Rightarrow> event list \<times> outcome \<times> request" where
  "run_chain c fs [] rq = ([], Next, rq)"
| "run_chain c fs (h # hs) rq =
     (case run_handler c fs h rq of
        (evs, Next, rq') \<Rightarrow>
          (case run_chain c fs hs rq' of (evs', out, rq'') \<Rightarrow> (evs @ evs', out, rq''))
      | (evs, out, rq') \<Rightarrow> (evs, out, rq'))"

text \<open>
  The argument object \<open>mainReqHandler\<close> builds for the route handler from the four
  results and the request.
\<close>

definition handler_args_of :: "validation_results \<Rightarrow> request \<Rightarrow> handler_args" where
  "handler_args_of v rq =
     \<lparr>params = paramsResult v, body = bodyResult v, query = queryResult v,
      headers = headersResult v, files = req_files rq, file = req_file rq, req = rq\<rparr>"

definition is_context_call :: "event \<Rightarrow> bool" where
  "is_context_call ev = (case ev of CallContextFunction f rq r \<Rightarrow> True | _ \<Rightarrow> False)"

section \<open>The core library as the specification describes it\<close>

text \<open>
  Modelled from the spec: the validator adapter \<open>checkZodSchema\<close> of \<open>@ts-rest/core\<close>,
  which is not among the source files.  \<open>conforms tolerant shape v\<close>: every declared key
  is present with a conforming value; in tolerant mode unknown extra keys are accepted,
  in strict mode they are rejected.
\<close>

fun conforms :: "bool \<Rightarrow> shape \<Rightarrow> jsval \<Rightarrow> bool" where
  "conforms t AnyString v = (case v of JStr s \<Rightarrow> True | _ \<Rightarrow> False)"
| "conforms t AnyBoolean v = (case v of JBool b \<Rightarrow> True | _ \<Rightarrow> False)"
| "conforms t AnyNumber v = (case v of JNum n \<Rightarrow> True | _ \<Rightarrow> False)"
| "conforms t (ObjectShape decl) v =
     (case v of
        JObject kvs \<Rightarrow>
          (\<forall>(k, sh) \<in> set decl.
             case map_of kvs k of Some x \<Rightarrow> conforms t sh x | None \<Rightarrow> False)
          \<and> (t \<or> (\<forall>k \<in> set (map fst kvs). k \<in> set (map fst decl)))
      | _ \<Rightarrow> False)"

text \<open>
  Modelled from the spec: the error detail of a failed validation.  The spec fixes only
  that a failure carries one; here it lists the keys at fault.
\<close>

fun issues :: "bool \<Rightarrow> shape \<Rightarrow> jsval \<Rightarrow> string list" where
  "issues t (ObjectShape decl) (JObject kvs) =
     map fst (filter (\<lambda>(k, sh). case map_of kvs k of Some x \<Rightarrow> \<not> conforms t sh x
                                   | None \<Rightarrow> True) decl)
     @ (if t then [] else filter (\<lambda>k. k \<notin> set (map fst decl)) (map fst kvs))"
| "issues t sh v = []"

text \<open>
  Modelled from the spec: \<open>checkZodSchema\<close>.  A shape that is not declared accepts the
  value as it is; the parsed data of a success is the value.
\<close>

fun checkZodSchema_spec :: "jsval \<Rightarrow> shape option \<Rightarrow> bool \<Rightarrow> jsval + jsval" where
  "checkZodSchema_spec v None t = Inr v"
| "checkZodSchema_spec v (Some sh) t =
     (if conforms t sh v then Inr v
      else Inl (JObject [(''issues'', JArray (map JStr (issues t sh v)))]))"

text \<open>
  Modelled from the spec: \<open>parseJsonQueryObject\<close> of \<open>@ts-rest/core\<close>.  Each query
  string value is parsed as JSON, falling back to the raw string when parsing fails.
  \<open>JSON.parse\<close> itself is a parameter: \<open>None\<close> is a parse failure.
\<close>

definition parseJsonQueryObject_spec :: "(string \<Rightarrow> jsval option) \<Rightarrow> jsval \<Rightarrow> jsval" where
  "parseJsonQueryObject_spec JSON_parse q =
     (case q of
        JObject kvs \<Rightarrow>
          JObject (map (\<lambda>(k, v). (k, case v of
                                        JStr s \<Rightarrow> (case JSON_parse s of Some j \<Rightarrow> j
                                                    | None \<Rightarrow> JStr s)
                                      | _ \<Rightarrow> v)) kvs)
      | _ \<Rightarrow> q)"

text \<open>
  Modelled from the spec: \<open>validateResponse\<close> of \<open>@ts-rest/core\<close>.  The body is
  validated in strict mode against the shape declared for the status; a body that fails
  is not returned.  What happens when no shape is declared for the status is left open
  by the spec, so it is a parameter.
\<close>

definition validateResponse_spec ::
    "(int \<times> jsval \<Rightarrow> exn + int \<times> jsval) \<Rightarrow> shape option \<Rightarrow> int \<times> jsval \<Rightarrow> exn + int \<times> jsval" where
  "validateResponse_spec undeclared responseType resp =
     (case responseType of
        None \<Rightarrow> undeclared resp
      | Some sh \<Rightarrow>
          (if conforms False sh (snd resp) then Inr resp
           else Inl (Error ''[ts-rest] Response validation failed'')))"

definition spec_core ::
    "(string \<Rightarrow> jsval option) \<Rightarrow> (int \<times> jsval \<Rightarrow> exn + int \<times> jsval) \<Rightarrow> core" where
  "spec_core JSON_parse undeclared =
     \<lparr>checkZodSchema = checkZodSchema_spec,
      parseJsonQueryObject = parseJsonQueryObject_spec JSON_parse,
      validateResponse = validateResponse_spec undeclared\<rparr>"

section \<open>What registration is expected to do\<close>

text \<open>
  The definitions of this section follow the words of the specification; the properties
  below compare \<open>createExpressEndpoints\<close> with them.
\<close>

definition supported_methods :: "string list" where
  "supported_methods = [''GET'', ''DELETE'', ''POST'', ''PUT'', ''PATCH'']"

text \<open>The registration call of the external router for a method.\<close>

definition method_call :: "string \<Rightarrow> string" where
  "method_call m =
     (if m = ''GET'' then ''get'' else if m = ''DELETE'' then ''delete''
      else if m = ''POST'' then ''post'' else if m = ''PUT'' then ''put''
      else if m = ''PATCH'' then ''patch'' else [])"

text \<open>
  The walker's two kinds of implementation node: a leaf is a callable or an object whose
  \<open>handler\<close> is callable; a container is an object whose \<open>handler\<close> is not callable.
\<close>

definition is_leaf :: "jsval \<Rightarrow> bool" where
  "is_leaf v = (typeof v = ''function'' \<or> typeof (js_get v ''handler'') = ''function'')"

definition is_container :: "jsval \<Rightarrow> bool" where
  "is_container v = (typeof v = ''object'' \<and> typeof (js_get v ''handler'') \<noteq> ''function'')"

text \<open>
  A list of middleware, where one is optional: absent, or an array.  An implementation of
  a route is a callable handler or an options object \<open>{handler, middleware?}\<close>.
\<close>

fun middleware_list :: "jsval \<Rightarrow> jsval list option" where
  "middleware_list JUndefined = Some []"
| "middleware_list (JArray xs) = Some xs"
| "middleware_list v = None"

definition elements :: "jsval \<Rightarrow> jsval list" where
  "elements v = (case middleware_list v of Some xs \<Rightarrow> xs | None \<Rightarrow> [])"

definition is_implementation :: "jsval \<Rightarrow> bool" where
  "is_implementation impl =
     (typeof impl = ''function''
      \<or> (typeof impl = ''object'' \<and> typeof (js_get impl ''handler'') = ''function''
         \<and> middleware_list (js_get impl ''middleware'') \<noteq> None))"

text \<open>
  The implementation tree mirrors the schema tree: an implementation where the schema has
  a Route; where it has a Router, a node that passes \<open>is_router\<close>, with the same keys and
  a mirroring sub-tree under each.  The keys of an object are distinct.
\<close>

fun shape_match :: "(jsval \<Rightarrow> bool) \<Rightarrow> schema \<Rightarrow> jsval \<Rightarrow> bool" where
  "shape_match is_router (AppRoute r) impl = is_implementation impl"
| "shape_match is_router (AppRouter skvs) impl =
     (is_router impl \<and> distinct (map fst skvs) \<and> distinct (map fst (entries impl))
      \<and> set (map fst (entries impl)) = set (map fst skvs)
      \<and> (\<forall>(k, s) \<in> set skvs.
            case map_of (entries impl) k of
              Some child \<Rightarrow> shape_match is_router s child
            | None \<Rightarrow> False))"
| "shape_match is_router NoSchema impl = False"

text \<open>
  \<open>mirrors\<close>: the trees have identical shape, a router node being any object.
  \<open>same_shape\<close>: moreover every router node is a container for the walker, that is, it
  has no callable under the key \<open>handler\<close>.
\<close>

definition mirrors :: "schema \<Rightarrow> jsval \<Rightarrow> bool" where
  "mirrors = shape_match (\<lambda>v. typeof v = ''object'')"

definition same_shape :: "schema \<Rightarrow> jsval \<Rightarrow> bool" where
  "same_shape = shape_match is_container"

text \<open>
  The leaves of the implementation tree, each with the Route the schema has at the same
  key path, in the implementation tree's enumeration order; and the Routes of a schema.
\<close>

lemma map_of_size:
  "map_of kvs k = Some (s::schema) \<Longrightarrow> size s < Suc (size_list (size_prod (\<lambda>_. 0) size) kvs)"
  by (induction kvs) (auto split: if_splits)

function leaves :: "schema \<Rightarrow> jsval \<Rightarrow> (jsval \<times> route) list" where
  "leaves (AppRoute r) impl = [(impl, r)]"
| "leaves (AppRouter skvs) impl =
     concat (map (\<lambda>(k, child). case map_of skvs k of Some s \<Rightarrow> leaves s child | None \<Rightarrow> [])
               (entries impl))"
| "leaves NoSchema impl = []"
  by pat_completeness auto
termination
  by (relation "measure (\<lambda>(s, impl). size s)") (auto dest: map_of_size)

fun routes_of :: "schema \<Rightarrow> route list" where
  "routes_of (AppRoute r) = [r]"
| "routes_of (AppRouter skvs) = concat (map (\<lambda>(k, s). routes_of s) skvs)"
| "routes_of NoSchema = []"

definition valid_routes :: "schema \<Rightarrow> bool" where
  "valid_routes schema = (\<forall>r \<in> set (routes_of schema). route_method r \<in> set supported_methods)"

text \<open>
  The chain of a leaf: \<open>[contextMiddleware, ...globalMiddleware, ...perRouteMiddleware,
  mainHandler]\<close>, its registration under the route's method and path, and the line logged
  for it.
\<close>

definition chain_for :: "jsval \<Rightarrow> options \<Rightarrow> jsval \<Rightarrow> route \<Rightarrow> handler_fn list" where
  "chain_for cf opts impl r =
     [ContextMiddleware cf r]
     @ map Supplied (elements (globalMiddleware opts))
     @ map Supplied (elements (js_get impl ''middleware''))
     @ [MainReqHandler (if typeof impl = ''function'' then impl else js_get impl ''handler'') r opts]"

definition registration_for :: "jsval \<Rightarrow> options \<Rightarrow> jsval \<times> route \<Rightarrow> registration" where
  "registration_for cf opts leaf =
     \<lparr>verb = method_call (route_method (snd leaf)), reg_path = route_path (snd leaf),
      handlers = chain_for cf opts (fst leaf) (snd leaf)\<rparr>"

definition log_line :: "jsval \<times> route \<Rightarrow> string" where
  "log_line leaf = ''[ts-rest] Initialized '' @ route_method (snd leaf) @ '' '' @ route_path (snd leaf)"

definition add_routes :: "jsval \<Rightarrow> options \<Rightarrow> (jsval \<times> route) list \<Rightarrow> host \<Rightarrow> host" where
  "add_routes cf opts ls app =
     \<lparr>registered = registered app @ map (registration_for cf opts) ls,
      console = console app @ (if logInitialization opts then map log_line ls else [])\<rparr>"

text \<open>The two structural mismatch errors.\<close>

definition expected_route :: exn where
  "expected_route = Error ''[ts-rest] Expected AppRoute but received AppRouter''"

definition expected_router :: exn where
  "expected_router = Error ''[ts-rest] Expected AppRouter but received AppRoute''"

text \<open>
  \<open>mismatch\<close>: some key path holds a leaf in one tree and a sub-tree in the other.
\<close>

function mismatch :: "schema \<Rightarrow> jsval \<Rightarrow> bool" where
  "mismatch (AppRoute r) impl = is_container impl"
| "mismatch (AppRouter skvs) impl =
     (is_leaf impl
      \<or> (is_container impl
         \<and> (\<exists>(k, child) \<in> set (entries impl).
               case map_of skvs k of Some s \<Rightarrow> mismatch s child | None \<Rightarrow> False)))"
| "mismatch NoSchema impl = False"
  by pat_completeness auto
termination
  by (relation "measure (\<lambda>(s, impl). size s)") (auto dest: map_of_size)

text \<open>
  \<open>first_mismatch schema impl pre e\<close>: walking the implementation tree in enumeration
  order, the first thing that does not match the schema is a mismatch of kinds, for which
  the error is \<open>e\<close>: a leaf where the schema has a Router, or a container that is not empty
  where the schema has a Route.  \<open>pre\<close> are the leaves enumerated before it; they and
  their Routes are well formed.
\<close>

inductive first_mismatch :: "schema \<Rightarrow> jsval \<Rightarrow> (jsval \<times> route) list \<Rightarrow> exn \<Rightarrow> bool" where
  leaf_for_router:
    "is_leaf impl \<Longrightarrow> first_mismatch (AppRouter skvs) impl [] expected_route"
| router_for_leaf:
    "is_container impl \<Longrightarrow> entries impl \<noteq> []
       \<Longrightarrow> first_mismatch (AppRoute r) impl [] expected_router"
| below:
    "is_container impl \<Longrightarrow> entries impl = before @ (k, child) # after
       \<Longrightarrow> \<forall>(k', c') \<in> set before.
             \<exists>s'. map_of skvs k' = Some s' \<and> same_shape s' c' \<and> valid_routes s'
       \<Longrightarrow> map_of skvs k = Some s
       \<Longrightarrow> first_mismatch s child pre e
       \<Longrightarrow> first_mismatch (AppRouter skvs) impl
             (concat (map (\<lambda>(k', c'). case map_of skvs k' of
                                         Some s' \<Rightarrow> leaves s' c' | None \<Rightarrow> []) before) @ pre) e"

code_pred first_mismatch .

section \<open>Examples\<close>

text \<open>The routes, requests and functions the concrete instances below are run on.\<close>

definition example_route :: "string \<Rightarrow> string \<Rightarrow> route" where
  "example_route m p =
     \<lparr>route_method = m, route_path = p, pathParams = None, route_headers = None,
      route_query = None, route_body = None, responses = []\<rparr>"

definition example_request :: request where
  "example_request =
     \<lparr>req_params = JObject [], req_headers = JObject [], req_query = JObject [],
      req_body = JObject [], req_files = JUndefined, req_file = JUndefined, tsRest = None\<rparr>"

text \<open>
  Every handler answers 201 with the body \<open>{extra: 1}\<close>; the context function
  \<open>ctx\<close> resolves to \<open>"user"\<close> and every other one rejects; the middleware \<open>deny\<close>
  answers 403 and every other one calls \<open>next()\<close>.
\<close>

definition example_calls :: calls where
  "example_calls =
     \<lparr>contextFunction_call =
        (\<lambda>f rq r. if f = ''ctx'' then Resolves (JStr ''user'') else Rejects (Error ''no session'')),
      handler_call =
        (\<lambda>f args. if f = ''fail'' then Rejects (Error ''boom'')
                   else Resolves \<lparr>status = 201, result_body = JObject [(''extra'', JNum 1)]\<rparr>),
      middleware_call =
        (\<lambda>f rq. if f = ''deny'' then Responds \<lparr>status_code = 403, sent = Json JNull\<rparr>
                 else CallsNext rq)\<rparr>"

definition example_core :: core where
  "example_core =
     spec_core (\<lambda>s. if s = ''true'' then Some (JBool True) else None) Inr"

definition create_post :: route where
  "create_post = (example_route ''POST'' ''/posts'')
     \<lparr>route_body := Some (ObjectShape [(''name'', AnyString)]),
      responses := [(201, ObjectShape [(''name'', AnyString)])]\<rparr>"

definition get_post :: route where
  "get_post = (example_route ''GET'' ''/posts/:id'')
     \<lparr>pathParams := Some (ObjectShape [(''id'', AnyString)])\<rparr>"

definition example_schema :: schema where
  "example_schema = AppRouter [(''getPost'', AppRoute get_post)]"

definition example_tree :: jsval where
  "example_tree = JObject [(''getPost'', JFunction ''getPost'')]"

definition get_post_chain :: "jsval \<Rightarrow> registration" where
  "get_post_chain cf =
     \<lparr>verb = ''get'', reg_path = ''/posts/:id'',
      handlers = [ContextMiddleware cf get_post,
                  MainReqHandler (JFunction ''getPost'') get_post default_options]\<rparr>"

definition empty_host :: host where
  "empty_host = \<lparr>registered = [], console = []\<rparr>"

definition health :: route where
  "health = example_route ''GET'' ''/health''"

definition api_schema :: schema where
  "api_schema =
     AppRouter [(''posts'', AppRouter [(''getPost'', AppRoute get_post),
                                       (''createPost'', AppRoute create_post)]),
                (''health'', AppRoute health)]"

definition create_post_impl :: jsval where
  "create_post_impl =
     JObject [(''middleware'', JArray [JFunction ''auth'']), (''handler'', JFunction ''createPost'')]"

definition api_tree :: jsval where
  "api_tree =
     JObject [(''health'', JFunction ''health''),
              (''posts'', JObject [(''createPost'', create_post_impl),
                                   (''getPost'', JFunction ''getPost'')])]"

definition api_options :: options where
  "api_options = default_options\<lparr>globalMiddleware := JArray [JFunction ''log'']\<rparr>"

definition route_a :: route where
  "route_a = example_route ''GET'' ''/a''"

definition route_b :: route where
  "route_b = example_route ''GET'' ''/b''"

definition chain_a :: registration where
  "chain_a = \<lparr>verb = ''get'', reg_path = ''/a'',
     handlers = [ContextMiddleware JUndefined route_a,
                 MainReqHandler (JFunction ''a'') route_a default_options]\<rparr>"



definition list_posts :: route where
  "list_posts = (example_route ''GET'' ''/posts'')
     \<lparr>route_query := Some (ObjectShape [(''active'', AnyBoolean)])\<rparr>"

definition list_posts_request :: request where
  "list_posts_request = example_request\<lparr>req_query := JObject [(''active'', JStr ''true'')]\<rparr>"

section \<open>Evaluating the examples\<close>

lemmas example_defs = example_core_def spec_core_def example_request_def get_post_def
  create_post_def example_route_def default_options_def example_calls_def

lemma example_registered:
  "createExpressEndpoints example_schema \<lparr>tree = example_tree, routerOptions = cf\<rparr> empty_host default_options
     = (None, \<lparr>registered = [get_post_chain (case cf of None \<Rightarrow> JUndefined | Some f \<Rightarrow> f)], 
         console = [''[ts-rest] Initialized GET /posts/:id'']\<rparr>)"
  by (simp add: createExpressEndpoints_def example_schema_def example_tree_def get_post_chain_def
      initializeExpressRoute_def js_get_def isAppRouteImplementation_def default_options_def
      register_def empty_host_def get_post_def example_route_def contextFunction_of_def)

lemmas shape_defs = same_shape_def mirrors_def is_container_def is_leaf_def is_implementation_def
  valid_routes_def supported_methods_def js_get_def

lemmas eval_defs = createExpressEndpoints_def initializeExpressRoute_def js_get_def
  isAppRouteImplementation_def default_options_def register_def empty_host_def
  example_route_def contextFunction_of_def initServer_router_def

section \<open>Properties of registration\<close>

lemma walk_invariant:
  fixes processRoute :: "jsval \<Rightarrow> route \<Rightarrow> 'a \<Rightarrow> exn option \<times> 'a"
  shows "(\<And>impl r st. I st \<Longrightarrow> I (snd (processRoute impl r st))) \<Longrightarrow> I app
           \<Longrightarrow> I (snd (recursivelyApplyExpressRouter processRoute schema router app))"
    and "(\<And>impl r st. I st \<Longrightarrow> I (snd (processRoute impl r st))) \<Longrightarrow> I app
           \<Longrightarrow> I (snd (forIn processRoute schema kvs app))"
proof (induction processRoute schema router app and processRoute schema kvs app
       rule: recursivelyApplyExpressRouter_forIn.induct)
  case (1 processRoute schema router app)
  then show ?case by (auto split: schema.splits)
next
  case (2 processRoute schema app)
  then show ?case by simp
next
  case (3 processRoute schema key child rest app)
  show ?case
  proof (cases "isAppRoute schema")
    case True
    then show ?thesis using "3.prems" by simp
  next
    case False
    show ?thesis
    proof (cases "subschema schema key")
      case (Inl e)
      then show ?thesis using False "3.prems" by simp
    next
      case (Inr sub)
      obtain err app' where w: "recursivelyApplyExpressRouter processRoute sub child app = (err, app')"
        by (cases "recursivelyApplyExpressRouter processRoute sub child app")
      have I': "I app'"
        using "3.IH"(1)[OF False Inr "3.prems"(1) "3.prems"(2)] w by simp
      show ?thesis
      proof (cases err)
        case None
        then show ?thesis
          using "3.IH"(2)[OF False Inr w[symmetric] None "3.prems"(1) I'] False Inr w by simp
      next
        case (Some e)
        then show ?thesis using False Inr w I' by simp
      qed
    qed
  qed
qed

lemma initializeExpressRoute_registered:
  "registered (snd (initializeExpressRoute impl r app opts cf)) = registered app
   \<or> (\<exists>v ms h. registered (snd (initializeExpressRoute impl r app opts cf))
        = registered app @ [\<lparr>verb = v, reg_path = route_path r,
             handlers = ContextMiddleware cf r # map Supplied ms @ [MainReqHandler h r opts]\<rparr>])"
proof (cases "if truthy (globalMiddleware opts) then spread (globalMiddleware opts) else Inr []")
  case (Inl e)
  then show ?thesis by (simp add: initializeExpressRoute_def Let_def)
next
  case g: (Inr gs)
  show ?thesis
  proof (cases "if \<not> isAppRouteImplementation impl \<and> truthy (js_get impl ''middleware'')
                then spread (js_get impl ''middleware'') else Inr []")
    case (Inl e)
    then show ?thesis using g by (simp add: initializeExpressRoute_def Let_def)
  next
    case p: (Inr ps)
    have m: "map Supplied gs @ map Supplied ps @ [x] = map Supplied (gs @ ps) @ [x]" for x by simp
    have "\<exists>ms h. ContextMiddleware cf r # map Supplied gs @ map Supplied ps
              @ [MainReqHandler (if isAppRouteImplementation impl then impl
                                 else js_get impl ''handler'') r opts]
            = ContextMiddleware cf r # map Supplied ms @ [MainReqHandler h r opts]"
      unfolding m by blast
    then obtain ms h where c: "ContextMiddleware cf r # map Supplied gs @ map Supplied ps
              @ [MainReqHandler (if isAppRouteImplementation impl then impl
                                 else js_get impl ''handler'') r opts]
            = ContextMiddleware cf r # map Supplied ms @ [MainReqHandler h r opts]" by blast
    show ?thesis
      unfolding initializeExpressRoute_def Let_def g p sum.case append_Cons append_Nil c
      by (auto simp: register_def)
  qed
qed

lemma createExpressEndpoints_chains:
  assumes "reg \<in> set (registered (snd (createExpressEndpoints schema router app opts)))"
  shows "reg \<in> set (registered app)
       \<or> (\<exists>r ms h. handlers reg = ContextMiddleware (contextFunction_of router) r
              # map Supplied ms @ [MainReqHandler h r opts] \<and> reg_path reg = route_path r)"
proof -
  let ?I = "\<lambda>st::host. \<forall>reg \<in> set (registered st). reg \<in> set (registered app)
       \<or> (\<exists>r ms h. handlers reg = ContextMiddleware (contextFunction_of router) r
              # map Supplied ms @ [MainReqHandler h r opts] \<and> reg_path reg = route_path r)"
  have "?I (snd (createExpressEndpoints schema router app opts))"
    unfolding createExpressEndpoints_def
  proof (rule walk_invariant(1))
    show "?I app" by simp
  next
    fix impl r and st :: host
    assume I: "?I st"
    show "?I (snd (initializeExpressRoute impl r st opts (contextFunction_of router)))"
      using initializeExpressRoute_registered[of impl r st opts "contextFunction_of router"] I
      by (elim disjE exE) (simp, fastforce)
  qed
  then show ?thesis using assms by blast
qed

lemma add_routes_Nil: "add_routes cf opts [] app = app"
  by (simp add: add_routes_def)

lemma add_routes_append:
  "add_routes cf opts (xs @ ys) app = add_routes cf opts ys (add_routes cf opts xs app)"
  by (simp add: add_routes_def)

lemma js_get_function: "js_get (JFunction f) key = JUndefined"
  by (simp add: js_get_def)

lemma typeof_function: "typeof v = ''function'' \<longleftrightarrow> (\<exists>f. v = JFunction f)"
  by (cases v) auto

lemma initializeExpressRoute_leaf:
  assumes impl: "is_implementation impl"
    and m: "route_method r \<in> set supported_methods"
    and gm: "middleware_list (globalMiddleware opts) \<noteq> None"
  shows "initializeExpressRoute impl r app opts cf = (None, add_routes cf opts [(impl, r)] app)"
proof -
  have g: "(if truthy (globalMiddleware opts) then spread (globalMiddleware opts) else Inr [])
            = Inr (elements (globalMiddleware opts))"
    using gm by (cases "globalMiddleware opts") (auto simp: elements_def)
  have p: "(if \<not> isAppRouteImplementation impl \<and> truthy (js_get impl ''middleware'')
            then spread (js_get impl ''middleware'') else Inr [])
            = Inr (elements (js_get impl ''middleware''))"
  proof (cases "typeof impl = ''function''")
    case True
    then show ?thesis
      by (auto simp: typeof_function isAppRouteImplementation_def js_get_function elements_def)
  next
    case False
    then have "middleware_list (js_get impl ''middleware'') \<noteq> None"
      using impl by (simp add: is_implementation_def)
    then show ?thesis using False
      by (cases "js_get impl ''middleware''") (auto simp: elements_def isAppRouteImplementation_def)
  qed
  have h: "(if isAppRouteImplementation impl then impl else js_get impl ''handler'')
          = (if typeof impl = ''function'' then impl else js_get impl ''handler'')"
    by (simp add: isAppRouteImplementation_def)
  show ?thesis
    unfolding initializeExpressRoute_def Let_def g p h
    using m
    by (auto simp: supported_methods_def add_routes_def registration_for_def chain_for_def
        register_def method_call_def log_line_def)
qed

lemma valid_routes_sub:
  "valid_routes (AppRouter skvs) \<Longrightarrow> map_of skvs k = Some s \<Longrightarrow> valid_routes s"
  by (auto simp: valid_routes_def dest!: map_of_SomeD)

lemma shape_match_entry:
  assumes "shape_match is_router (AppRouter skvs) impl" and "(k, c) \<in> set (entries impl)"
  shows "\<exists>s. map_of skvs k = Some s \<and> shape_match is_router s c"
proof -
  have d: "distinct (map fst (entries impl))" and ds: "distinct (map fst skvs)"
    and keys: "set (map fst (entries impl)) = set (map fst skvs)"
    and sub: "\<forall>(k, s) \<in> set skvs. case map_of (entries impl) k of
              Some child \<Rightarrow> shape_match is_router s child | None \<Rightarrow> False"
    using assms(1) by auto
  have "k \<in> set (map fst skvs)" using assms(2) keys by force
  then obtain s where s: "(k, s) \<in> set skvs" by auto
  have c: "map_of (entries impl) k = Some c" using d assms(2) by simp
  have "map_of skvs k = Some s" using ds s by simp
  moreover have "shape_match is_router s c" using sub s c by fastforce
  ultimately show ?thesis by blast
qed

lemma walk_same_shape:
  fixes processRoute :: "jsval \<Rightarrow> route \<Rightarrow> host \<Rightarrow> exn option \<times> host"
  shows "(\<And>impl r st. is_implementation impl \<Longrightarrow> route_method r \<in> set supported_methods
            \<Longrightarrow> processRoute impl r st = (None, add_routes cf opts [(impl, r)] st))
         \<Longrightarrow> same_shape schema router \<Longrightarrow> valid_routes schema
         \<Longrightarrow> recursivelyApplyExpressRouter processRoute schema router app
               = (None, add_routes cf opts (leaves schema router) app)"
    and "(\<And>impl r st. is_implementation impl \<Longrightarrow> route_method r \<in> set supported_methods
            \<Longrightarrow> processRoute impl r st = (None, add_routes cf opts [(impl, r)] st))
         \<Longrightarrow> \<not> isAppRoute schema
         \<Longrightarrow> (\<forall>(k, c) \<in> set kvs. \<exists>s. subschema schema k = Inr s \<and> same_shape s c \<and> valid_routes s)
         \<Longrightarrow> forIn processRoute schema kvs app
               = (None, add_routes cf opts
                    (concat (map (\<lambda>(k, c). case subschema schema k of
                                              Inr s \<Rightarrow> leaves s c | Inl e \<Rightarrow> []) kvs)) app)"
proof (induction processRoute schema router app and processRoute schema kvs app
       rule: recursivelyApplyExpressRouter_forIn.induct)
  case (1 processRoute schema router app)
  show ?case
  proof (cases schema)
    case (AppRoute r)
    have impl: "is_implementation router" using "1.prems"(2) AppRoute by (simp add: same_shape_def)
    have r: "route_method r \<in> set supported_methods"
      using "1.prems"(3) AppRoute by (simp add: valid_routes_def)
    have leaf: "\<not> (typeof router = ''object'' \<and> typeof (js_get router ''handler'') \<noteq> ''function'')"
      "typeof router = ''function'' \<or> typeof (js_get router ''handler'') = ''function''"
      using impl by (auto simp: is_implementation_def)
    show ?thesis
      using leaf AppRoute "1.prems"(1)[OF impl r] by auto
  next
    case (AppRouter skvs)
    have c: "typeof router = ''object'' \<and> typeof (js_get router ''handler'') \<noteq> ''function''"
      using "1.prems"(2) AppRouter by (simp add: same_shape_def is_container_def)
    have ent: "\<forall>(k, c) \<in> set (entries router).
                 \<exists>s. subschema schema k = Inr s \<and> same_shape s c \<and> valid_routes s"
    proof (clarify)
      fix k c assume "(k, c) \<in> set (entries router)"
      then obtain s where "map_of skvs k = Some s" "same_shape s c"
        using shape_match_entry[of is_container skvs router k c] "1.prems"(2) AppRouter
        by (auto simp: same_shape_def)
      then show "\<exists>s. subschema schema k = Inr s \<and> same_shape s c \<and> valid_routes s"
        using AppRouter valid_routes_sub[of skvs k s] "1.prems"(3) by simp
    qed
    have l: "leaves schema router
        = concat (map (\<lambda>(k, c). case subschema schema k of Inr s \<Rightarrow> leaves s c | Inl e \<Rightarrow> [])
                   (entries router))"
      using ent AppRouter
      by (auto intro!: arg_cong[where f = concat] map_cong split: option.splits)
    show ?thesis
      using "1.IH"[OF c "1.prems"(1) _ ent] c AppRouter l by simp
  next
    case NoSchema
    then show ?thesis using "1.prems"(2) by (simp add: same_shape_def)
  qed
next
  case (2 processRoute schema app)
  then show ?case by (simp add: add_routes_Nil)
next
  case (3 processRoute schema key child rest app)
  obtain s where s: "subschema schema key = Inr s" "same_shape s child" "valid_routes s"
    using "3.prems"(3) by auto
  have w: "recursivelyApplyExpressRouter processRoute s child app
             = (None, add_routes cf opts (leaves s child) app)"
    using "3.IH"(1)[OF "3.prems"(2) s(1) "3.prems"(1) s(2) s(3)] .
  have r: "\<forall>(k, c) \<in> set rest. \<exists>s. subschema schema k = Inr s \<and> same_shape s c \<and> valid_routes s"
    using "3.prems"(3) by auto
  have f: "forIn processRoute schema rest (add_routes cf opts (leaves s child) app)
             = (None, add_routes cf opts
                    (concat (map (\<lambda>(k, c). case subschema schema k of
                                              Inr s \<Rightarrow> leaves s c | Inl e \<Rightarrow> []) rest))
                    (add_routes cf opts (leaves s child) app))"
    using "3.IH"(2)[OF "3.prems"(2) s(1) w[symmetric] refl "3.prems"(1) "3.prems"(2) r] .
  show ?case
    using "3.prems"(2) s(1) w f by (simp add: add_routes_append)
qed

lemma sum_list_mset_cong:
  fixes g :: "'a \<Rightarrow> 'b multiset"
  shows "mset xs = mset ys \<Longrightarrow> sum_list (map g xs) = sum_list (map g ys)"
  by (metis mset_map sum_mset_sum_list)

lemma mset_concat_map:
  "mset (map f (concat (map F kvs))) = sum_list (map (\<lambda>p. mset (map f (F p))) kvs)"
  by (induction kvs) auto

lemma leaves_routes:
  "shape_match is_router schema impl \<Longrightarrow> mset (map snd (leaves schema impl)) = mset (routes_of schema)"
proof (induction is_router schema impl rule: shape_match.induct)
  case (1 is_router r impl)
  then show ?case by simp
next
  case (2 is_router skvs impl)
  let ?g = "\<lambda>k. mset (routes_of (case map_of skvs k of Some s \<Rightarrow> s | None \<Rightarrow> NoSchema))"
  have d: "distinct (map fst (entries impl))" and ds: "distinct (map fst skvs)"
    and keys: "set (map fst (entries impl)) = set (map fst skvs)"
    using "2.prems" by auto
  have l: "mset (map snd (case map_of skvs (fst p) of Some s \<Rightarrow> leaves s (snd p) | None \<Rightarrow> []))
             = ?g (fst p)" if p: "p \<in> set (entries impl)" for p
  proof -
    obtain s where s: "map_of skvs (fst p) = Some s" "shape_match is_router s (snd p)"
      using shape_match_entry[OF "2.prems", of "fst p" "snd p"] p by auto
    have c: "map_of (entries impl) (fst p) = Some (snd p)" using d p by simp
    have "(fst p, s) \<in> set skvs" using s(1) by (rule map_of_SomeD)
    then show ?thesis using "2.IH"[of "(fst p, s)" "fst p" s "snd p"] s c by simp
  qed
  have "mset (map snd (leaves (AppRouter skvs) impl))
          = sum_list (map (\<lambda>p. mset (map snd (case map_of skvs (fst p) of
                              Some s \<Rightarrow> leaves s (snd p) | None \<Rightarrow> []))) (entries impl))"
    by (simp only: leaves.simps mset_concat_map case_prod_beta)
  also have "\<dots> = sum_list (map (\<lambda>p. ?g (fst p)) (entries impl))"
    using l by (intro arg_cong[where f = sum_list] map_cong) auto
  also have "\<dots> = sum_list (map ?g (map fst (entries impl)))"
    by (simp add: comp_def)
  also have "\<dots> = sum_list (map ?g (map fst skvs))"
    using set_eq_iff_mset_eq_distinct[OF d ds] keys by (intro sum_list_mset_cong) blast
  also have "\<dots> = sum_list (map (\<lambda>p. mset (routes_of (snd p))) skvs)"
    using ds by (auto simp: comp_def intro!: arg_cong[where f = sum_list])
  also have "\<dots> = mset (routes_of (AppRouter skvs))"
    by (simp add: mset_concat case_prod_beta comp_def)
  finally show ?case .
next
  case (3 is_router impl)
  then show ?case by simp
qed

lemma shape_match_mono:
  "(\<And>v. p v \<Longrightarrow> q v) \<Longrightarrow> shape_match p schema impl \<Longrightarrow> shape_match q schema impl"
proof (induction p schema impl rule: shape_match.induct)
  case (2 is_router skvs impl)
  then show ?case by (fastforce split: option.splits)
qed auto

lemma same_shape_mirrors: "same_shape schema impl \<Longrightarrow> mirrors schema impl"
  unfolding same_shape_def mirrors_def
  by (rule shape_match_mono[of is_container]) (simp_all add: is_container_def)

lemma api_same_shape: "same_shape api_schema api_tree"
  by (auto simp: api_schema_def api_tree_def create_post_impl_def shape_defs)

lemma api_valid: "valid_routes api_schema"
  by (simp add: api_schema_def shape_defs get_post_def create_post_def health_def example_route_def)

text \<open>
  \<^bold>\<open>C5\<close>, as amended.  For every schema tree and implementation tree of the same
  shape (\<open>same_shape\<close>: identical shape, and every router node of the implementation
  tree is a container for the walker), with Routes of a supported method and middleware
  given as arrays, registration succeeds; it registers the chains of the leaves of the
  implementation tree in that tree's enumeration order, each chain being
  \<open>[contextMiddleware, ...globalMiddleware, ...perRouteMiddleware, mainHandler]\<close> under
  the route's method and its path as declared; it logs a line for each when asked to; and
  the Routes so served are the Routes of the schema, each once.
\<close>

theorem registration_of_matching_trees:
  fixes app :: host
  assumes "same_shape schema (tree router)"
    and "valid_routes schema"
    and "middleware_list (globalMiddleware opts) \<noteq> None"
  defines "ls \<equiv> leaves schema (tree router)"
    and "result \<equiv> createExpressEndpoints schema router app opts"
  shows "fst result = None
       \<and> registered (snd result)
           = registered app @ map (registration_for (contextFunction_of router) opts) ls
       \<and> console (snd result)
           = console app @ (if logInitialization opts then map log_line ls else [])
       \<and> mset (map snd ls) = mset (routes_of schema)"
proof -
  have "result = (None, add_routes (contextFunction_of router) opts ls app)"
    unfolding result_def ls_def createExpressEndpoints_def
    by (rule walk_same_shape(1)[OF initializeExpressRoute_leaf[OF _ _ assms(3)] assms(1,2)])
  moreover have "mset (map snd ls) = mset (routes_of schema)"
    unfolding ls_def by (rule leaves_routes[OF assms(1)[unfolded same_shape_def]])
  ultimately show ?thesis by (simp add: add_routes_def del: mset_map)
qed

theorem matching_trees_witness:
  "same_shape api_schema api_tree \<and> valid_routes api_schema
   \<and> createExpressEndpoints api_schema (initServer_router api_tree) empty_host api_options
     = (None,
        \<lparr>registered =
           [\<lparr>verb = ''get'', reg_path = ''/health'',
             handlers = [ContextMiddleware JUndefined health, Supplied (JFunction ''log''),
                         MainReqHandler (JFunction ''health'') health api_options]\<rparr>,
            \<lparr>verb = ''post'', reg_path = ''/posts'',
             handlers = [ContextMiddleware JUndefined create_post, Supplied (JFunction ''log''),
                         Supplied (JFunction ''auth''),
                         MainReqHandler (JFunction ''createPost'') create_post api_options]\<rparr>,
            \<lparr>verb = ''get'', reg_path = ''/posts/:id'',
             handlers = [ContextMiddleware JUndefined get_post, Supplied (JFunction ''log''),
                         MainReqHandler (JFunction ''getPost'') get_post api_options]\<rparr>],
         console = [''[ts-rest] Initialized GET /health'', ''[ts-rest] Initialized POST /posts'',
                    ''[ts-rest] Initialized GET /posts/:id'']\<rparr>)"
proof -
  have gm: "middleware_list (globalMiddleware api_options) \<noteq> None"
    by (simp add: api_options_def)
  have s: "same_shape api_schema (tree (initServer_router api_tree))"
    using api_same_shape by (simp add: initServer_router_def)
  have l: "leaves api_schema api_tree
             = [(JFunction ''health'', health), (create_post_impl, create_post),
                (JFunction ''getPost'', get_post)]"
    by (simp add: api_schema_def api_tree_def)
  have e: "createExpressEndpoints api_schema (initServer_router api_tree) empty_host api_options
            = (fst (createExpressEndpoints api_schema (initServer_router api_tree) empty_host api_options),
               \<lparr>registered = registered (snd (createExpressEndpoints api_schema (initServer_router api_tree) empty_host api_options)),
                console = console (snd (createExpressEndpoints api_schema (initServer_router api_tree) empty_host api_options))\<rparr>)"
    by (simp add: prod_eq_iff)
  show ?thesis
    using registration_of_matching_trees[OF s api_valid gm, of empty_host] api_same_shape api_valid
    apply (subst e)
    apply (simp add: l initServer_router_def registration_for_def chain_for_def log_line_def
        method_call_def elements_def contextFunction_of_def empty_host_def
        create_post_impl_def js_get_def api_options_def default_options_def
        get_post_def create_post_def health_def example_route_def del: mset_map)
    done
qed

text \<open>
  \<^bold>\<open>C5\<close> as stated fails: a router with one route, named \<open>handler\<close> and implemented
  by a function, has the shape of its schema, but the walker takes the router object for
  an options object and registration fails.
\<close>

theorem handler_key_counterexample:
  "mirrors (AppRouter [(''handler'', AppRoute route_a)]) (JObject [(''handler'', JFunction ''a'')])
   \<and> valid_routes (AppRouter [(''handler'', AppRoute route_a)])
   \<and> createExpressEndpoints (AppRouter [(''handler'', AppRoute route_a)])
         (initServer_router (JObject [(''handler'', JFunction ''a'')])) empty_host default_options
       = (Some (Error ''[ts-rest] Expected AppRoute but received AppRouter''), empty_host)"
  by (simp add: shape_defs eval_defs route_a_def)

text \<open>
  \<^bold>\<open>C6\<close>, as amended.  For a leaf route whose method is not one of the five,
  \<open>initializeExpressRoute\<close> registers nothing and raises no \<open>Error\<close>: with a well-formed
  implementation and middleware it returns normally.  The initialization line is logged
  exactly when \<open>logInitialization\<close> is set.
\<close>

theorem unsupported_method_skipped:
  assumes "route_method r \<notin> set supported_methods"
  shows "registered (snd (initializeExpressRoute impl r app opts cf)) = registered app
       \<and> console (snd (initializeExpressRoute impl r app opts cf))
           = console app @ (if logInitialization opts then [log_line (impl, r)] else [])
       \<and> (\<forall>msg. fst (initializeExpressRoute impl r app opts cf) \<noteq> Some (Error msg))
       \<and> (is_implementation impl \<and> middleware_list (globalMiddleware opts) \<noteq> None \<longrightarrow>
            fst (initializeExpressRoute impl r app opts cf) = None)"
proof -
  have s: "spread v = Inl e \<Longrightarrow> e = TypeError" for v e
    by (cases v) auto
  have 1: "registered (snd (initializeExpressRoute impl r app opts cf)) = registered app"
    using assms unfolding initializeExpressRoute_def Let_def supported_methods_def
    by (simp split: sum.splits)
  have 4: "console (snd (initializeExpressRoute impl r app opts cf))
           = console app @ (if logInitialization opts then [log_line (impl, r)] else [])"
    using assms unfolding initializeExpressRoute_def Let_def supported_methods_def
    by (simp add: log_line_def split: sum.splits)
  have 2: "fst (initializeExpressRoute impl r app opts cf) \<noteq> Some (Error msg)" for msg
    unfolding initializeExpressRoute_def Let_def
    by (auto split: sum.splits dest: s)
  have 3: "fst (initializeExpressRoute impl r app opts cf) = None"
    if impl: "is_implementation impl" and gm: "middleware_list (globalMiddleware opts) \<noteq> None"
  proof -
    have g: "(if truthy (globalMiddleware opts) then spread (globalMiddleware opts) else Inr [])
            = Inr (elements (globalMiddleware opts))"
      using gm by (cases "globalMiddleware opts") (auto simp: elements_def)
    have p: "(if \<not> isAppRouteImplementation impl \<and> truthy (js_get impl ''middleware'')
            then spread (js_get impl ''middleware'') else Inr [])
            = Inr (elements (js_get impl ''middleware''))"
    proof (cases "typeof impl = ''function''")
      case True
      then show ?thesis
        by (auto simp: typeof_function isAppRouteImplementation_def js_get_function elements_def)
    next
      case False
      then have "middleware_list (js_get impl ''middleware'') \<noteq> None"
        using impl by (simp add: is_implementation_def)
      then show ?thesis using False
        by (cases "js_get impl ''middleware''") (auto simp: elements_def isAppRouteImplementation_def)
    qed
    show ?thesis unfolding initializeExpressRoute_def Let_def g p by simp
  qed
  show ?thesis using 1 2 3 4 by blast
qed

theorem unsupported_method_witness:
  "route_method (example_route ''HEAD'' ''/health'') \<notin> set supported_methods
   \<and> initializeExpressRoute (JFunction ''probe'') (example_route ''HEAD'' ''/health'')
        empty_host default_options JUndefined
       = (None, \<lparr>registered = [], console = [''[ts-rest] Initialized HEAD /health'']\<rparr>)
   \<and> initializeExpressRoute (JFunction ''probe'') (example_route ''HEAD'' ''/health'')
        empty_host (default_options\<lparr>logInitialization := False\<rparr>) JUndefined
       = (None, \<lparr>registered = [], console = []\<rparr>)"
proof -
  have m: "route_method (example_route ''HEAD'' ''/health'') \<notin> set supported_methods"
    by (simp add: example_route_def supported_methods_def)
  show ?thesis
    using unsupported_method_skipped[OF m, of "JFunction ''probe''" empty_host default_options JUndefined]
      unsupported_method_skipped[OF m, of "JFunction ''probe''" empty_host
        "default_options\<lparr>logInitialization := False\<rparr>" JUndefined] m
    by (simp add: eval_defs)
qed

text \<open>
  \<^bold>\<open>C6\<close> as stated fails: registering a \<open>HEAD\<close> route raises nothing, registers
  nothing, and logs the route as initialized.
\<close>

theorem unsupported_method_counterexample:
  "createExpressEndpoints (AppRouter [(''probe'', AppRoute (example_route ''HEAD'' ''/health''))])
      (initServer_router (JObject [(''probe'', JFunction ''probe'')])) empty_host default_options
     = (None, \<lparr>registered = [], console = [''[ts-rest] Initialized HEAD /health'']\<rparr>)"
  by (simp add: eval_defs)

lemma forIn_append:
  "forIn processRoute schema (xs @ ys) app =
     (case forIn processRoute schema xs app of
        (None, app') \<Rightarrow> forIn processRoute schema ys app'
      | (Some e, app') \<Rightarrow> (Some e, app'))"
proof (induction xs arbitrary: app)
  case Nil
  then show ?case by simp
next
  case (Cons x xs)
  obtain k c where x: "x = (k, c)" by (cases x)
  show ?case
    unfolding x append_Cons forIn.simps
    by (auto simp: Cons.IH split: sum.splits prod.splits option.splits)
qed

lemma walk_first_mismatch:
  fixes processRoute :: "jsval \<Rightarrow> route \<Rightarrow> host \<Rightarrow> exn option \<times> host"
  assumes leaf: "\<And>impl r st. is_implementation impl \<Longrightarrow> route_method r \<in> set supported_methods
            \<Longrightarrow> processRoute impl r st = (None, add_routes cf opts [(impl, r)] st)"
  shows "first_mismatch schema router pre e
         \<Longrightarrow> recursivelyApplyExpressRouter processRoute schema router app
               = (Some e, add_routes cf opts pre app)"
proof (induction arbitrary: app rule: first_mismatch.induct)
  case (leaf_for_router impl skvs)
  then show ?case
    by (auto simp: is_leaf_def expected_route_def add_routes_Nil)
next
  case (router_for_leaf impl r)
  then obtain k c rest where "entries impl = (k, c) # rest" by (cases "entries impl") auto
  then show ?case using router_for_leaf
    by (simp add: is_container_def expected_router_def add_routes_Nil)
next
  case (below impl before k child after skvs s pre e)
  let ?S = "AppRouter skvs"
  let ?pre0 = "concat (map (\<lambda>(k', c'). case subschema ?S k' of
                                         Inr s' \<Rightarrow> leaves s' c' | Inl e \<Rightarrow> []) before)"
  have b: "\<forall>(k', c') \<in> set before.
             \<exists>s'. subschema ?S k' = Inr s' \<and> same_shape s' c' \<and> valid_routes s'"
    using below.hyps(3) by fastforce
  have f: "forIn processRoute ?S before app = (None, add_routes cf opts ?pre0 app)"
    using walk_same_shape(2)[of processRoute cf opts ?S before app, OF leaf _ b] by simp
  have eq: "?pre0 = concat (map (\<lambda>(k', c'). case map_of skvs k' of
                                         Some s' \<Rightarrow> leaves s' c' | None \<Rightarrow> []) before)"
    using below.hyps(3)
    by (auto intro!: arg_cong[where f = concat] map_cong split: option.splits)
  have c: "typeof impl = ''object'' \<and> typeof (js_get impl ''handler'') \<noteq> ''function''"
    using below.hyps(1) by (simp add: is_container_def)
  show ?case
    using c below.hyps(2) below.hyps(4) f below.IH[of "add_routes cf opts ?pre0 app"]
    by (simp add: forIn_append eq[symmetric] add_routes_append)
qed

text \<open>
  \<^bold>\<open>C1\<close>, as amended.  When the walk of the implementation tree reaches a mismatch
  of kinds (a leaf where the schema has a Router, or a container that is not empty where
  the schema has a Route), everything enumerated before it matching the schema,
  registration fails with the structural mismatch error.  The walk stops for the whole
  tree: nothing is registered after the error, but the chains of the leaves enumerated
  before the mismatch have been registered and stay registered.
\<close>

theorem mismatch_aborts_from_there:
  assumes "first_mismatch schema (tree router) pre e"
    and "middleware_list (globalMiddleware opts) \<noteq> None"
  shows "createExpressEndpoints schema router app opts
           = (Some e, add_routes (contextFunction_of router) opts pre app)
       \<and> (e = expected_route \<or> e = expected_router)"
proof -
  have "e = expected_route \<or> e = expected_router"
    using assms(1) by (induction rule: first_mismatch.induct) auto
  then show ?thesis
    unfolding createExpressEndpoints_def
    using walk_first_mismatch[OF initializeExpressRoute_leaf[OF _ _ assms(2)] assms(1)]
    by simp
qed

theorem mismatch_witness:
  "first_mismatch (AppRouter [(''a'', AppRoute route_a), (''b'', AppRoute route_b)])
            (JObject [(''a'', JFunction ''a''), (''b'', JObject [(''c'', JFunction ''c'')])])
            [(JFunction ''a'', route_a)] expected_router
   \<and> createExpressEndpoints (AppRouter [(''a'', AppRoute route_a), (''b'', AppRoute route_b)])
         (initServer_router (JObject [(''a'', JFunction ''a''), (''b'', JObject [(''c'', JFunction ''c'')])]))
         empty_host default_options
       = (Some (Error ''[ts-rest] Expected AppRouter but received AppRoute''),
          \<lparr>registered = [chain_a], console = [''[ts-rest] Initialized GET /a'']\<rparr>)"
proof -
  let ?S = "AppRouter [(''a'', AppRoute route_a), (''b'', AppRoute route_b)]"
  let ?T = "JObject [(''a'', JFunction ''a''), (''b'', JObject [(''c'', JFunction ''c'')])]"
  have inner: "first_mismatch (AppRoute route_b) (JObject [(''c'', JFunction ''c'')]) [] expected_router"
    by (rule first_mismatch.router_for_leaf) (simp_all add: shape_defs)
  have "first_mismatch ?S ?T
          (concat (map (\<lambda>(k', c'). case map_of [(''a'', AppRoute route_a), (''b'', AppRoute route_b)] k' of
                                         Some s' \<Rightarrow> leaves s' c' | None \<Rightarrow> []) [(''a'', JFunction ''a'')]) @ [])
          expected_router"
    by (rule first_mismatch.below[where before = "[(''a'', JFunction ''a'')]" and k = "''b''"
          and child = "JObject [(''c'', JFunction ''c'')]" and after = "[]" and s = "AppRoute route_b",
          OF _ _ _ _ inner])
       (simp_all add: shape_defs route_a_def example_route_def)
  then have m: "first_mismatch ?S (tree (initServer_router ?T)) [(JFunction ''a'', route_a)] expected_router"
    by (simp add: initServer_router_def)
  have gm: "middleware_list (globalMiddleware default_options) \<noteq> None"
    by (simp add: default_options_def)
  show ?thesis
    using mismatch_aborts_from_there[OF m gm, of empty_host] m
    by (simp add: initServer_router_def add_routes_def registration_for_def chain_for_def
        log_line_def method_call_def elements_def contextFunction_of_def empty_host_def
        js_get_def default_options_def route_a_def example_route_def chain_a_def
        expected_router_def)
qed

text \<open>
  \<^bold>\<open>C1\<close> as stated fails twice.  With a mismatch under the second key, the chain of
  the first key is registered before the error is raised.  With an empty object where
  the schema has a Route, no error is raised at all.
\<close>

theorem partial_registration_counterexample:
  "mismatch (AppRouter [(''a'', AppRoute route_a), (''b'', AppRoute route_b)])
            (JObject [(''a'', JFunction ''a''), (''b'', JObject [(''c'', JFunction ''c'')])])
   \<and> createExpressEndpoints (AppRouter [(''a'', AppRoute route_a), (''b'', AppRoute route_b)])
         (initServer_router (JObject [(''a'', JFunction ''a''), (''b'', JObject [(''c'', JFunction ''c'')])]))
         empty_host default_options
       = (Some (Error ''[ts-rest] Expected AppRouter but received AppRoute''),
          \<lparr>registered = [chain_a], console = [''[ts-rest] Initialized GET /a'']\<rparr>)
   \<and> mismatch (AppRouter [(''a'', AppRoute route_a)]) (JObject [(''a'', JObject [])])
   \<and> createExpressEndpoints (AppRouter [(''a'', AppRoute route_a)])
         (initServer_router (JObject [(''a'', JObject [])])) empty_host default_options
       = (None, empty_host)"
  by (simp add: shape_defs eval_defs route_a_def route_b_def chain_a_def)

section \<open>Properties of request handling\<close>

text \<open>
  \<^bold>\<open>C2.\<close>  \<open>mainReqHandler\<close> validates the path parameters, then the headers, then the
  query, then the body.  At the first of the four checks that fails it answers with status
  400 and that check's error as the body: the calls it has made are the checks up to and
  including the failing one (and, before the query check, \<open>parseJsonQueryObject\<close> when
  \<open>jsonQuery\<close> is set), so no later check is evaluated and the route handler is not
  called.
\<close>

theorem validation_order_short_circuit:
  fixes c :: core and rq :: request and schema :: route and opts :: options
  defines "P \<equiv> checkZodSchema c (req_params rq) (pathParams schema) True"
    and "H \<equiv> checkZodSchema c (req_headers rq) (route_headers schema) True"
    and "q \<equiv> (if jsonQuery opts then parseJsonQueryObject c (req_query rq) else req_query rq)"
  defines "Q \<equiv> checkZodSchema c q (route_query schema) False"
    and "B \<equiv> checkZodSchema c (req_body rq) (route_body schema) False"
    and "evP \<equiv> [CallCheckZodSchema (req_params rq) (pathParams schema) True]"
    and "evH \<equiv> [CallCheckZodSchema (req_headers rq) (route_headers schema) True]"
    and "evQ \<equiv> (if jsonQuery opts then [CallParseJsonQueryObject (req_query rq)] else [])
                 @ [CallCheckZodSchema q (route_query schema) False]"
    and "evB \<equiv> [CallCheckZodSchema (req_body rq) (route_body schema) False]"
  shows "(P = Inl e \<longrightarrow>
            mainReqHandler c fs handler schema opts rq
              = (evP, Responded \<lparr>status_code = 400, sent = Send e\<rparr>))
       \<and> (P = Inr d1 \<and> H = Inl e \<longrightarrow>
            mainReqHandler c fs handler schema opts rq
              = (evP @ evH, Responded \<lparr>status_code = 400, sent = Send e\<rparr>))
       \<and> (P = Inr d1 \<and> H = Inr d2 \<and> Q = Inl e \<longrightarrow>
            mainReqHandler c fs handler schema opts rq
              = (evP @ evH @ evQ, Responded \<lparr>status_code = 400, sent = Send e\<rparr>))
       \<and> (P = Inr d1 \<and> H = Inr d2 \<and> Q = Inr d3 \<and> B = Inl e \<longrightarrow>
            mainReqHandler c fs handler schema opts rq
              = (evP @ evH @ evQ @ evB, Responded \<lparr>status_code = 400, sent = Send e\<rparr>))"
  unfolding P_def H_def Q_def B_def q_def evP_def evH_def evQ_def evB_def
  by (simp add: mainReqHandler_def validateRequest_def Let_def)

theorem validation_witness:
  "mainReqHandler example_core example_calls (JFunction ''createPost'') create_post
       default_options example_request
     = ([CallCheckZodSchema (JObject []) None True,
         CallCheckZodSchema (JObject []) None True,
         CallCheckZodSchema (JObject []) None False,
         CallCheckZodSchema (JObject []) (Some (ObjectShape [(''name'', AnyString)])) False],
        Responded \<lparr>status_code = 400,
                    sent = Send (JObject [(''issues'', JArray [JStr ''name''])])\<rparr>)"
  using validation_order_short_circuit[where c = example_core and rq = example_request
      and schema = create_post and opts = default_options and fs = example_calls
      and handler = "JFunction ''createPost''" and ?d1.0 = "JObject []" and ?d2.0 = "JObject []"
      and ?d3.0 = "JObject []" and e = "JObject [(''issues'', JArray [JStr ''name''])]"]
  by (simp add: example_defs)



text \<open>
  \<^bold>\<open>C8.\<close>  With \<open>jsonQuery\<close> set, \<open>validateRequest\<close> validates
  \<open>parseJsonQueryObject(req.query)\<close> against the query shape, and the query handed to
  the handler is the data of that validation (for any core functions).  With
  \<open>parseJsonQueryObject\<close> as the specification describes it, the keys of the query are
  kept and each string value is replaced by its JSON reading, or kept when it has none;
  \<open>active=true\<close> becomes the boolean \<open>true\<close>.
\<close>

theorem json_query_parsed_first:
  fixes c :: core and J :: "string \<Rightarrow> jsval option" and rq :: request and schema :: route
  defines "evP \<equiv> CallCheckZodSchema (req_params rq) (pathParams schema) True"
    and "evH \<equiv> CallCheckZodSchema (req_headers rq) (route_headers schema) True"
    and "parsed \<equiv> parseJsonQueryObject c (req_query rq)"
  shows "(jsonQuery opts \<and> checkZodSchema c (req_params rq) (pathParams schema) True = Inr d1
            \<and> checkZodSchema c (req_headers rq) (route_headers schema) True = Inr d2 \<longrightarrow>
          take 4 (fst (validateRequest c rq schema opts))
            = [evP, evH, CallParseJsonQueryObject (req_query rq),
               CallCheckZodSchema parsed (route_query schema) False]
          \<and> (\<forall>evs v. validateRequest c rq schema opts = (evs, Inr v) \<longrightarrow>
                checkZodSchema c parsed (route_query schema) False = Inr (queryResult v)))
     \<and> map fst (entries (parseJsonQueryObject (spec_core J u) (JObject q))) = map fst q
     \<and> (\<forall>k s. (k, JStr s) \<in> set q \<longrightarrow>
          (k, case J s of Some j \<Rightarrow> j | None \<Rightarrow> JStr s)
            \<in> set (entries (parseJsonQueryObject (spec_core J u) (JObject q))))
     \<and> (J ''true'' = Some (JBool True) \<longrightarrow>
          parseJsonQueryObject (spec_core J u) (JObject [(''active'', JStr ''true'')])
            = JObject [(''active'', JBool True)])"
proof -
  have 1: "take 4 (fst (validateRequest c rq schema opts))
            = [evP, evH, CallParseJsonQueryObject (req_query rq),
               CallCheckZodSchema parsed (route_query schema) False]
          \<and> (\<forall>evs v. validateRequest c rq schema opts = (evs, Inr v) \<longrightarrow>
                checkZodSchema c parsed (route_query schema) False = Inr (queryResult v))"
    if "jsonQuery opts" "checkZodSchema c (req_params rq) (pathParams schema) True = Inr d1"
       "checkZodSchema c (req_headers rq) (route_headers schema) True = Inr d2"
    using that
    by (auto simp: validateRequest_def Let_def evP_def evH_def parsed_def split: sum.splits)
  have 2: "map fst (entries (parseJsonQueryObject (spec_core J u) (JObject q))) = map fst q"
    by (simp add: spec_core_def parseJsonQueryObject_spec_def case_prod_beta comp_def)
  have 4: "(k, case J s of Some j \<Rightarrow> j | None \<Rightarrow> JStr s)
            \<in> set (entries (parseJsonQueryObject (spec_core J u) (JObject q)))"
    if "(k, JStr s) \<in> set q" for k s
    using that by (force simp: spec_core_def parseJsonQueryObject_spec_def)
  have 3: "J ''true'' = Some (JBool True) \<longrightarrow>
          parseJsonQueryObject (spec_core J u) (JObject [(''active'', JStr ''true'')])
            = JObject [(''active'', JBool True)]"
    by (simp add: spec_core_def parseJsonQueryObject_spec_def)
  show ?thesis using 1 2 3 4 by blast
qed

theorem json_query_witness:
  "mainReqHandler example_core example_calls (JFunction ''listPosts'') list_posts
        (default_options\<lparr>jsonQuery := True\<rparr>) list_posts_request
     = ([CallCheckZodSchema (JObject []) None True,
         CallCheckZodSchema (JObject []) None True,
         CallParseJsonQueryObject (JObject [(''active'', JStr ''true'')]),
         CallCheckZodSchema (JObject [(''active'', JBool True)])
           (Some (ObjectShape [(''active'', AnyBoolean)])) False,
         CallCheckZodSchema (JObject []) None False,
         CallHandler (JFunction ''listPosts'')
           \<lparr>params = JObject [], body = JObject [], query = JObject [(''active'', JBool True)],
            headers = JObject [], files = JUndefined, file = JUndefined,
            req = list_posts_request\<rparr>],
        Responded \<lparr>status_code = 201, sent = Json (JObject [(''extra'', JNum 1)])\<rparr>)
   \<and> mainReqHandler example_core example_calls (JFunction ''listPosts'') list_posts
        default_options list_posts_request
     = ([CallCheckZodSchema (JObject []) None True,
         CallCheckZodSchema (JObject []) None True,
         CallCheckZodSchema (JObject [(''active'', JStr ''true'')])
           (Some (ObjectShape [(''active'', AnyBoolean)])) False],
        Responded \<lparr>status_code = 400,
                    sent = Send (JObject [(''issues'', JArray [JStr ''active''])])\<rparr>)"
  using json_query_parsed_first[where c = example_core and rq = list_posts_request
        and schema = list_posts and opts = "default_options\<lparr>jsonQuery := True\<rparr>"
        and J = "\<lambda>s. if s = ''true'' then Some (JBool True) else None"]
  by (simp add: mainReqHandler_def validateRequest_def Let_def example_defs
        list_posts_def list_posts_request_def Number_def parseJsonQueryObject_spec_def)

lemma mainReqHandler_valid:
  assumes "validateRequest c rq schema opts = (evs, Inr v)"
  shows "mainReqHandler c fs handler schema opts rq =
     (let args = handler_args_of v rq; evs1 = evs @ [CallHandler handler args] in
      case await (invoke_handler fs handler args) of
        None \<Rightarrow> (evs1, Stalled)
      | Some (Inl e) \<Rightarrow> (evs1, NextError e)
      | Some (Inr result) \<Rightarrow>
          (let statusCode = Number (status result) in
           if responseValidation opts then
             (let responseType = map_of (responses schema) statusCode;
                  evs2 = evs1 @ [CallValidateResponse responseType statusCode (result_body result)]
              in case validateResponse c responseType (statusCode, result_body result) of
                   Inl e \<Rightarrow> (evs2, NextError e)
                 | Inr response \<Rightarrow>
                     (evs2, Responded \<lparr>status_code = statusCode, sent = Json (snd response)\<rparr>))
           else (evs1, Responded \<lparr>status_code = statusCode, sent = Json (result_body result)\<rparr>)))"
  using assms by (simp add: mainReqHandler_def handler_args_of_def)

text \<open>
  \<^bold>\<open>C9.\<close>  When the validation has succeeded and the route handler throws or returns a
  promise that rejects with \<open>e\<close>, \<open>mainReqHandler\<close> calls \<open>next(e)\<close> with that same
  \<open>e\<close>: it sends no response and makes no further call.
\<close>

theorem handler_failure_forwarded:
  assumes "validateRequest c rq schema opts = (evs, Inr v)"
    and "invoke_handler fs handler (handler_args_of v rq) = Throws e
       \<or> invoke_handler fs handler (handler_args_of v rq) = Rejects e"
  shows "mainReqHandler c fs handler schema opts rq
           = (evs @ [CallHandler handler (handler_args_of v rq)], NextError e)"
  using assms(2) by (auto simp: mainReqHandler_valid[OF assms(1)] Let_def)

theorem handler_failure_witness:
  "mainReqHandler example_core example_calls (JFunction ''fail'') get_post default_options
       (example_request\<lparr>req_params := JObject [(''id'', JStr ''7'')]\<rparr>)
     = ([CallCheckZodSchema (JObject [(''id'', JStr ''7'')]) (Some (ObjectShape [(''id'', AnyString)])) True,
         CallCheckZodSchema (JObject []) None True,
         CallCheckZodSchema (JObject []) None False,
         CallCheckZodSchema (JObject []) None False,
         CallHandler (JFunction ''fail'')
           \<lparr>params = JObject [(''id'', JStr ''7'')], body = JObject [], query = JObject [],
            headers = JObject [], files = JUndefined, file = JUndefined,
            req = example_request\<lparr>req_params := JObject [(''id'', JStr ''7'')]\<rparr>\<rparr>],
        NextError (Error ''boom''))"
proof -
  let ?rq = "example_request\<lparr>req_params := JObject [(''id'', JStr ''7'')]\<rparr>"
  let ?v = "\<lparr>paramsResult = JObject [(''id'', JStr ''7'')], headersResult = JObject [],
             queryResult = JObject [], bodyResult = JObject []\<rparr>"
  have v: "validateRequest example_core ?rq get_post default_options
      = ([CallCheckZodSchema (JObject [(''id'', JStr ''7'')]) (Some (ObjectShape [(''id'', AnyString)])) True,
         CallCheckZodSchema (JObject []) None True,
         CallCheckZodSchema (JObject []) None False,
         CallCheckZodSchema (JObject []) None False], Inr ?v)"
    by (simp add: validateRequest_def example_defs Let_def)
  have h: "invoke_handler example_calls (JFunction ''fail'') (handler_args_of ?v ?rq) = Throws (Error ''boom'')
         \<or> invoke_handler example_calls (JFunction ''fail'') (handler_args_of ?v ?rq) = Rejects (Error ''boom'')"
    by (simp add: example_calls_def)
  show ?thesis
    using handler_failure_forwarded[OF v h] by (simp add: handler_args_of_def example_request_def)
qed

text \<open>
  \<^bold>\<open>C4.\<close>  When the route handler returns normally, the status sent is
  \<open>Number(result.status)\<close> and the body goes out through \<open>res.json\<close>.  Without
  \<open>responseValidation\<close> the body is the handler's, as it is.  With it,
  \<open>validateResponse\<close> is first called with the shape that \<open>responses\<close> declares for
  exactly that status code (with no shape when none is declared for it); the body sent is
  the one it returns, and when it throws, nothing is sent and the exception goes to
  \<open>next\<close>.
\<close>

theorem response_shaping:
  assumes "validateRequest c rq schema opts = (evs, Inr v)"
    and "await (invoke_handler fs handler (handler_args_of v rq)) = Some (Inr result)"
  defines "called \<equiv> evs @ [CallHandler handler (handler_args_of v rq)]"
    and "statusCode \<equiv> Number (status result)"
  defines "responseType \<equiv> map_of (responses schema) statusCode"
  defines "validated \<equiv> called @ [CallValidateResponse responseType statusCode (result_body result)]"
  shows "statusCode = status result
     \<and> (\<not> responseValidation opts \<longrightarrow>
          mainReqHandler c fs handler schema opts rq
            = (called, Responded \<lparr>status_code = statusCode, sent = Json (result_body result)\<rparr>))
     \<and> (\<forall>sh. responseValidation opts \<and> responseType = Some sh \<longrightarrow>
          (statusCode, sh) \<in> set (responses schema))
     \<and> (responseValidation opts \<and> statusCode \<notin> fst ` set (responses schema) \<longrightarrow>
          responseType = None)
     \<and> (\<forall>resp. responseValidation opts
              \<and> validateResponse c responseType (statusCode, result_body result) = Inr resp \<longrightarrow>
          mainReqHandler c fs handler schema opts rq
            = (validated, Responded \<lparr>status_code = statusCode, sent = Json (snd resp)\<rparr>))
     \<and> (\<forall>e. responseValidation opts
              \<and> validateResponse c responseType (statusCode, result_body result) = Inl e \<longrightarrow>
          mainReqHandler c fs handler schema opts rq = (validated, NextError e))"
  unfolding called_def statusCode_def responseType_def validated_def
  using assms(2)
  by (auto simp: mainReqHandler_valid[OF assms(1)] Let_def Number_def map_of_eq_None_iff
      dest: map_of_SomeD)

theorem response_witness:
  "mainReqHandler example_core example_calls (JFunction ''createPost'') create_post
       (default_options\<lparr>responseValidation := True\<rparr>)
       (example_request\<lparr>req_body := JObject [(''name'', JStr ''n'')]\<rparr>)
     = ([CallCheckZodSchema (JObject []) None True,
         CallCheckZodSchema (JObject []) None True,
         CallCheckZodSchema (JObject []) None False,
         CallCheckZodSchema (JObject [(''name'', JStr ''n'')]) (Some (ObjectShape [(''name'', AnyString)])) False,
         CallHandler (JFunction ''createPost'')
           \<lparr>params = JObject [], body = JObject [(''name'', JStr ''n'')], query = JObject [],
            headers = JObject [], files = JUndefined, file = JUndefined,
            req = example_request\<lparr>req_body := JObject [(''name'', JStr ''n'')]\<rparr>\<rparr>,
         CallValidateResponse (Some (ObjectShape [(''name'', AnyString)])) 201 (JObject [(''extra'', JNum 1)])],
        NextError (Error ''[ts-rest] Response validation failed''))"
proof -
  let ?rq = "example_request\<lparr>req_body := JObject [(''name'', JStr ''n'')]\<rparr>"
  let ?opts = "default_options\<lparr>responseValidation := True\<rparr>"
  let ?v = "\<lparr>paramsResult = JObject [], headersResult = JObject [],
             queryResult = JObject [], bodyResult = JObject [(''name'', JStr ''n'')]\<rparr>"
  let ?res = "\<lparr>status = 201, result_body = JObject [(''extra'', JNum 1)]\<rparr>"
  have v: "validateRequest example_core ?rq create_post ?opts
      = ([CallCheckZodSchema (JObject []) None True,
         CallCheckZodSchema (JObject []) None True,
         CallCheckZodSchema (JObject []) None False,
         CallCheckZodSchema (JObject [(''name'', JStr ''n'')]) (Some (ObjectShape [(''name'', AnyString)])) False], Inr ?v)"
    by (simp add: validateRequest_def example_defs Let_def)
  have h: "await (invoke_handler example_calls (JFunction ''createPost'') (handler_args_of ?v ?rq))
            = Some (Inr ?res)"
    by (simp add: example_calls_def)
  have f: "responseValidation ?opts
        \<and> validateResponse example_core (map_of (responses create_post) (Number (status ?res)))
            (Number (status ?res), result_body ?res) = Inl (Error ''[ts-rest] Response validation failed'')"
    by (simp add: example_defs Number_def validateResponse_spec_def)
  show ?thesis
    using response_shaping[OF v h] f
    by (simp add: handler_args_of_def example_request_def Number_def create_post_def example_route_def)
qed

lemma validateRequest_events:
  "ev \<in> set (fst (validateRequest c rq schema opts)) \<Longrightarrow> \<not> is_context_call ev"
  by (auto simp: validateRequest_def Let_def is_context_call_def split: sum.splits if_splits)

lemma mainReqHandler_events:
  "ev \<in> set (fst (mainReqHandler c fs h r opts rq)) \<Longrightarrow> \<not> is_context_call ev"
proof (cases "validateRequest c rq r opts")
  case (Pair evs res)
  assume ev: "ev \<in> set (fst (mainReqHandler c fs h r opts rq))"
  have evs: "\<And>x. x \<in> set evs \<Longrightarrow> \<not> is_context_call x"
    using validateRequest_events[of _ c rq r opts] Pair by simp
  show ?thesis
  proof (cases res)
    case (Inl resp)
    then show ?thesis using ev evs Pair by (simp add: mainReqHandler_def)
  next
    case (Inr v)
    then show ?thesis
      using ev evs mainReqHandler_valid[of c rq r opts evs v fs h] Pair
      by (auto simp: Let_def is_context_call_def split: option.splits sum.splits if_splits)
  qed
qed

lemma run_handler_events:
  "(\<forall>cf r. h \<noteq> ContextMiddleware cf r) \<Longrightarrow> ev \<in> set (fst (run_handler c fs h rq))
     \<Longrightarrow> \<not> is_context_call ev"
proof (induction c fs h rq rule: run_handler.induct)
  case (2 c fs handler schema opts rq)
  then show ?case using mainReqHandler_events[of ev c fs handler schema opts rq]
    by (auto split: prod.splits)
qed (auto simp: is_context_call_def split: mw_step.splits)

lemma run_chain_events:
  "(\<forall>h \<in> set hs. \<forall>cf r. h \<noteq> ContextMiddleware cf r)
     \<Longrightarrow> filter is_context_call (fst (run_chain c fs hs rq)) = []"
proof (induction hs arbitrary: rq)
  case Nil
  then show ?case by simp
next
  case (Cons h hs)
  obtain evs out rq' where h: "run_handler c fs h rq = (evs, out, rq')"
    by (cases "run_handler c fs h rq")
  have evs: "filter is_context_call evs = []"
    using run_handler_events[of h _ c fs rq] Cons.prems h by (auto simp: filter_empty_conv)
  show ?case
  proof (cases out)
    case Next
    then show ?thesis using h evs Cons.IH[of rq'] Cons.prems
      by (auto split: prod.splits)
  qed (use h evs in auto)
qed

lemma registered_chain:
  assumes "reg \<in> set (registered (snd (createExpressEndpoints schema router empty_host opts)))"
  obtains r ms h where
    "handlers reg = ContextMiddleware (contextFunction_of router) r
        # map Supplied ms @ [MainReqHandler h r opts]"
  using createExpressEndpoints_chains[OF assms] by (auto simp: empty_host_def)

text \<open>
  \<^bold>\<open>C3.\<close>  Every chain that \<open>createExpressEndpoints\<close> registers starts with the context
  middleware of the router's context function and of the chain's route.  On every request
  the context function is called once when one is declared (and never otherwise).  When
  it resolves to \<open>ctx\<close>, the rest of the chain, validation included, runs on the request
  with \<open>tsRest = {route, context: ctx}\<close>; when none is declared, the rest runs on the
  request with \<open>tsRest = {route, context: undefined}\<close>.  What the rest of the chain does
  (a validation that fails, say) has no part in this.  In every other case the chain ends
  in the context middleware, so no handler after it runs on a request without the
  attachment.
\<close>

theorem context_attached_first:
  assumes "reg \<in> set (registered (snd (createExpressEndpoints schema router empty_host opts)))"
  defines "cf \<equiv> contextFunction_of router"
  shows "\<exists>r ms h. handlers reg
            = ContextMiddleware cf r # map Supplied ms @ [MainReqHandler h r opts]
     \<and> (\<forall>c fs rq.
          length (filter is_context_call (fst (run_chain c fs (handlers reg) rq)))
            = (if truthy cf then 1 else 0))
     \<and> (\<forall>c fs rq. \<not> truthy cf \<longrightarrow>
          run_chain c fs (handlers reg) rq
            = run_chain c fs (map Supplied ms @ [MainReqHandler h r opts])
                (rq\<lparr>tsRest := Some (r, JUndefined)\<rparr>))
     \<and> (\<forall>c fs rq ctx.
          truthy cf \<and> await (invoke_contextFunction fs cf rq r) = Some (Inr ctx) \<longrightarrow>
          run_chain c fs (handlers reg) rq
            = (case run_chain c fs (map Supplied ms @ [MainReqHandler h r opts])
                      (rq\<lparr>tsRest := Some (r, ctx)\<rparr>) of
                 (evs, res) \<Rightarrow> (CallContextFunction cf rq r # evs, res)))
     \<and> (\<forall>c fs rq.
          truthy cf \<and> (\<forall>ctx. await (invoke_contextFunction fs cf rq r) \<noteq> Some (Inr ctx)) \<longrightarrow>
          run_chain c fs (handlers reg) rq = contextMiddleware fs cf r rq
          \<and> fst (snd (contextMiddleware fs cf r rq)) \<noteq> Next)"
proof -
  obtain r ms h where hs:
    "handlers reg = ContextMiddleware cf r # map Supplied ms @ [MainReqHandler h r opts]"
    using registered_chain[OF assms(1)] unfolding cf_def by blast
  let ?rest = "map Supplied ms @ [MainReqHandler h r opts]"
  have rest: "\<forall>x \<in> set ?rest. \<forall>f s. x \<noteq> ContextMiddleware f s" by auto
  have none: "filter is_context_call (fst (run_chain c fs ?rest rq)) = []" for c fs rq
    using run_chain_events[OF rest] .
  have once: "length (filter is_context_call (fst (run_chain c fs (handlers reg) rq)))
            = (if truthy cf then 1 else 0)" for c fs rq
  proof (cases "truthy cf")
    case False
    then show ?thesis using none[of c fs "rq\<lparr>tsRest := Some (r, JUndefined)\<rparr>"]
      by (auto simp: hs contextMiddleware_def split: prod.splits)
  next
    case True
    show ?thesis
    proof (cases "await (invoke_contextFunction fs cf rq r)")
      case None
      then show ?thesis using True by (simp add: hs contextMiddleware_def is_context_call_def)
    next
      case (Some a)
      show ?thesis
      proof (cases a)
        case (Inl e)
        then show ?thesis using True Some
          by (simp add: hs contextMiddleware_def is_context_call_def)
      next
        case (Inr ctx)
        then show ?thesis using True Some none[of c fs "rq\<lparr>tsRest := Some (r, ctx)\<rparr>"]
          by (auto simp: hs contextMiddleware_def is_context_call_def split: prod.splits)
      qed
    qed
  qed
  have absent: "\<not> truthy cf \<longrightarrow> run_chain c fs (handlers reg) rq
            = run_chain c fs ?rest (rq\<lparr>tsRest := Some (r, JUndefined)\<rparr>)" for c fs rq
    by (simp add: hs contextMiddleware_def split: prod.splits)
  have present: "truthy cf \<and> await (invoke_contextFunction fs cf rq r) = Some (Inr ctx) \<longrightarrow>
          run_chain c fs (handlers reg) rq
            = (case run_chain c fs ?rest (rq\<lparr>tsRest := Some (r, ctx)\<rparr>) of
                 (evs, res) \<Rightarrow> (CallContextFunction cf rq r # evs, res))" for c fs rq ctx
    by (simp add: hs contextMiddleware_def split: prod.splits)
  have other: "truthy cf \<and> (\<forall>ctx. await (invoke_contextFunction fs cf rq r) \<noteq> Some (Inr ctx)) \<longrightarrow>
          run_chain c fs (handlers reg) rq = contextMiddleware fs cf r rq
          \<and> fst (snd (contextMiddleware fs cf r rq)) \<noteq> Next" for c fs rq
    by (auto simp: hs contextMiddleware_def split: option.splits sum.splits)
  show ?thesis
    using hs once absent present other by blast
qed

theorem context_witness:
  "get_post_chain (JFunction ''ctx'')
      \<in> set (registered (snd (createExpressEndpoints example_schema
            (initServer_context_router (JFunction ''ctx'') example_tree) empty_host default_options)))
   \<and> run_chain example_core example_calls (handlers (get_post_chain (JFunction ''ctx''))) example_request
      = ([CallContextFunction (JFunction ''ctx'') example_request get_post,
          CallCheckZodSchema (JObject []) (Some (ObjectShape [(''id'', AnyString)])) True],
         Responded \<lparr>status_code = 400, sent = Send (JObject [(''issues'', JArray [JStr ''id''])])\<rparr>,
         example_request\<lparr>tsRest := Some (get_post, JStr ''user'')\<rparr>)
   \<and> run_chain example_core example_calls (handlers (get_post_chain JUndefined)) example_request
      = ([CallCheckZodSchema (JObject []) (Some (ObjectShape [(''id'', AnyString)])) True],
         Responded \<lparr>status_code = 400, sent = Send (JObject [(''issues'', JArray [JStr ''id''])])\<rparr>,
         example_request\<lparr>tsRest := Some (get_post, JUndefined)\<rparr>)"
proof -
  let ?router = "initServer_context_router (JFunction ''ctx'') example_tree"
  let ?reg = "get_post_chain (JFunction ''ctx'')"
  have reg: "?reg \<in> set (registered (snd (createExpressEndpoints example_schema ?router
            empty_host default_options)))"
    by (simp add: example_registered initServer_context_router_def)
  have run1: "run_chain example_core example_calls (handlers ?reg) example_request
      = ([CallContextFunction (JFunction ''ctx'') example_request get_post,
          CallCheckZodSchema (JObject []) (Some (ObjectShape [(''id'', AnyString)])) True],
         Responded \<lparr>status_code = 400, sent = Send (JObject [(''issues'', JArray [JStr ''id''])])\<rparr>,
         example_request\<lparr>tsRest := Some (get_post, JStr ''user'')\<rparr>)"
    by (simp add: get_post_chain_def contextMiddleware_def mainReqHandler_def validateRequest_def
        example_defs Let_def)
  have run2: "run_chain example_core example_calls (handlers (get_post_chain JUndefined)) example_request
      = ([CallCheckZodSchema (JObject []) (Some (ObjectShape [(''id'', AnyString)])) True],
         Responded \<lparr>status_code = 400, sent = Send (JObject [(''issues'', JArray [JStr ''id''])])\<rparr>,
         example_request\<lparr>tsRest := Some (get_post, JUndefined)\<rparr>)"
    by (simp add: get_post_chain_def contextMiddleware_def mainReqHandler_def validateRequest_def
        example_defs Let_def)
  show ?thesis
    using context_attached_first[OF reg] reg run1 run2 by simp
qed

text \<open>
  \<^bold>\<open>C10.\<close>  On a chain that \<open>createExpressEndpoints\<close> registered for a router with a
  context function, a request on which the context function throws or rejects with \<open>e\<close>
  ends in the context middleware: the only call made is the one to the context function,
  the outcome is an unhandled rejection of \<open>e\<close> (neither \<open>next()\<close> nor \<open>next(e)\<close>, no
  response), and the request is left as it came.
\<close>

theorem context_failure_unhandled:
  assumes "reg \<in> set (registered (snd (createExpressEndpoints schema router empty_host opts)))"
  defines "cf \<equiv> contextFunction_of router"
  shows "\<exists>r rest. handlers reg = ContextMiddleware cf r # rest
     \<and> (\<forall>c fs rq e.
          truthy cf \<and> (invoke_contextFunction fs cf rq r = Throws e
                        \<or> invoke_contextFunction fs cf rq r = Rejects e) \<longrightarrow>
          run_chain c fs (handlers reg) rq = ([CallContextFunction cf rq r], UnhandledRejection e, rq))"
proof -
  obtain r ms h where hs:
    "handlers reg = ContextMiddleware cf r # map Supplied ms @ [MainReqHandler h r opts]"
    using registered_chain[OF assms(1)] unfolding cf_def by blast
  have "truthy cf \<and> (invoke_contextFunction fs cf rq r = Throws e
                        \<or> invoke_contextFunction fs cf rq r = Rejects e) \<longrightarrow>
          run_chain c fs (handlers reg) rq = ([CallContextFunction cf rq r], UnhandledRejection e, rq)"
    for c fs rq e
    by (auto simp: hs contextMiddleware_def)
  then show ?thesis using hs by blast
qed

theorem context_failure_witness:
  "get_post_chain (JFunction ''anon'')
      \<in> set (registered (snd (createExpressEndpoints example_schema
            (initServer_context_router (JFunction ''anon'') example_tree) empty_host default_options)))
   \<and> run_chain example_core example_calls (handlers (get_post_chain (JFunction ''anon''))) example_request
      = ([CallContextFunction (JFunction ''anon'') example_request get_post],
         UnhandledRejection (Error ''no session''), example_request)"
proof -
  let ?router = "initServer_context_router (JFunction ''anon'') example_tree"
  let ?reg = "get_post_chain (JFunction ''anon'')"
  have reg: "?reg \<in> set (registered (snd (createExpressEndpoints example_schema ?router
            empty_host default_options)))"
    by (simp add: example_registered initServer_context_router_def)
  have fails: "truthy (JFunction ''anon'')
     \<and> (invoke_contextFunction example_calls (JFunction ''anon'') example_request get_post
            = Throws (Error ''no session'')
        \<or> invoke_contextFunction example_calls (JFunction ''anon'') example_request get_post
            = Rejects (Error ''no session''))"
    by (simp add: example_calls_def)
  from context_failure_unhandled[OF reg] obtain r rest where
    hs: "handlers ?reg = ContextMiddleware (contextFunction_of ?router) r # rest"
    and run: "\<And>c fs rq e. truthy (contextFunction_of ?router)
          \<and> (invoke_contextFunction fs (contextFunction_of ?router) rq r = Throws e
             \<or> invoke_contextFunction fs (contextFunction_of ?router) rq r = Rejects e)
          \<Longrightarrow> run_chain c fs (handlers ?reg) rq
                = ([CallContextFunction (contextFunction_of ?router) rq r], UnhandledRejection e, rq)"
    by blast
  have r: "r = get_post" using hs by (simp add: get_post_chain_def)
  have cf: "contextFunction_of ?router = JFunction ''anon''"
    by (simp add: contextFunction_of_def initServer_context_router_def)
  show ?thesis
    using reg run[of example_calls example_request "Error ''no session''" example_core] fails
    unfolding r cf by simp
qed

end
